theory Spec2Isabelle
  imports Main "HOL-Library.Char_ord" "HOL-Library.List_Lexorder"
begin

section \<open>Songbook: library, playlists and the local store\<close>

text \<open>
  A shallow embedding of the data layer of the sheet-music reader: the record types of
  \<^verbatim>\<open>types.ts\<close>, the IndexedDB wrapper \<^verbatim>\<open>db.ts\<close>, and the handlers of the
  \<^verbatim>\<open>App\<close> and \<^verbatim>\<open>PlaylistView\<close> components that read and write library and
  playlist state.

  Conventions of the model.
  \<^item> A JavaScript string is a \<^typ>\<open>string\<close>: a character stands for one code unit,
    and the strings of the model are those over the code units below 256.
  \<^item> React state and the two IndexedDB object stores are the fields of one record,
    \<open>world\<close>; a handler takes the world and returns the new world together with what the
    user is shown (\<open>notice\<close>).
  \<^item> Every handler runs from its first line to its last without another handler in
    between, so the \<^verbatim>\<open>playlists\<close> value a handler closes over is the current one.
  \<^item> What a handler reads from its environment is a parameter: the clock
    (\<^verbatim>\<open>Date.now()\<close>, an integer), the text of \<^verbatim>\<open>Math.random()\<close>, the answer to
    \<^verbatim>\<open>window.confirm\<close>, the result of the PDF conversion, and whether a request to
    the store fails (\<open>fault\<close>: \<open>Some msg\<close> when the request throws).
  \<^item> \<^verbatim>\<open>loadingMessage\<close> and \<^verbatim>\<open>isFullscreen\<close> are presentation only and left out.
\<close>

subsection \<open>types.ts\<close>

record SheetMusic =
  sm_id :: string
  sm_name :: string
  pages :: "string list"

record Playlist =
  pl_id :: string
  pl_name :: string
  itemIds :: "string list"

record HydratedPlaylist =
  hp_id :: string
  hp_name :: string
  hp_items :: "SheetMusic list"

subsection \<open>JavaScript strings\<close>

text \<open>Decimal text of an integer, as a template literal renders \<^verbatim>\<open>Date.now()\<close>:
  a time value is an integer of at most 16 digits, which JavaScript writes out in full,
  with a minus sign when it is negative.\<close>

definition digit_char :: "nat \<Rightarrow> char" where
  "digit_char d = ''0123456789'' ! d"

fun digits :: "nat \<Rightarrow> string" where
  "digits n = (if n < 10 then [digit_char n] else digits (n div 10) @ [digit_char (n mod 10)])"

declare digits.simps [simp del]

definition number_toString :: "int \<Rightarrow> string" where
  "number_toString i = (if i < 0 then CHR ''-'' # digits (nat (- i)) else digits (nat i))"

text \<open>\<^verbatim>\<open>String.prototype.toLowerCase\<close> on code units below 256: the letters A to Z
  and the accented capitals \<open>0xC0\<close> to \<open>0xDE\<close> (without the multiplication sign
  \<open>0xD7\<close>) move up by \<open>0x20\<close>; every other code unit stays.\<close>

definition upper_chars :: string where
  "upper_chars =
     ''ABCDEFGHIJKLMNOPQRSTUVWXYZ'' @
     [CHR 0xC0, CHR 0xC1, CHR 0xC2, CHR 0xC3, CHR 0xC4, CHR 0xC5, CHR 0xC6, CHR 0xC7,
      CHR 0xC8, CHR 0xC9, CHR 0xCA, CHR 0xCB, CHR 0xCC, CHR 0xCD, CHR 0xCE, CHR 0xCF,
      CHR 0xD0, CHR 0xD1, CHR 0xD2, CHR 0xD3, CHR 0xD4, CHR 0xD5, CHR 0xD6,
      CHR 0xD8, CHR 0xD9, CHR 0xDA, CHR 0xDB, CHR 0xDC, CHR 0xDD, CHR 0xDE]"

definition lower_chars :: string where
  "lower_chars =
     ''abcdefghijklmnopqrstuvwxyz'' @
     [CHR 0xE0, CHR 0xE1, CHR 0xE2, CHR 0xE3, CHR 0xE4, CHR 0xE5, CHR 0xE6, CHR 0xE7,
      CHR 0xE8, CHR 0xE9, CHR 0xEA, CHR 0xEB, CHR 0xEC, CHR 0xED, CHR 0xEE, CHR 0xEF,
      CHR 0xF0, CHR 0xF1, CHR 0xF2, CHR 0xF3, CHR 0xF4, CHR 0xF5, CHR 0xF6,
      CHR 0xF8, CHR 0xF9, CHR 0xFA, CHR 0xFB, CHR 0xFC, CHR 0xFD, CHR 0xFE]"

definition lower_char :: "char \<Rightarrow> char" where
  "lower_char c = (case map_of (zip upper_chars lower_chars) c of None \<Rightarrow> c | Some l \<Rightarrow> l)"

definition toLowerCase :: "string \<Rightarrow> string" where
  "toLowerCase s = map lower_char s"

definition endsWith :: "string \<Rightarrow> string \<Rightarrow> bool" where
  "endsWith s suf = (length suf \<le> length s \<and> drop (length s - length suf) s = suf)"

fun str_includes :: "string \<Rightarrow> string \<Rightarrow> bool" where
  "str_includes [] pat = (pat = [])"
| "str_includes (c # cs) pat = (take (length pat) (c # cs) = pat \<or> str_includes cs pat)"

text \<open>\<^verbatim>\<open>name.replace(/\.pdf$/i, '')\<close>: the pattern is anchored at the end of the text, so
  it matches at most once, on the last four code units, whatever their case.\<close>

definition matches_pdf_ext :: "string \<Rightarrow> bool" where
  "matches_pdf_ext suf =
     (case suf of
        [c0, c1, c2, c3] \<Rightarrow>
          c0 = CHR ''.'' \<and> (c1 = CHR ''p'' \<or> c1 = CHR ''P'') \<and>
          (c2 = CHR ''d'' \<or> c2 = CHR ''D'') \<and> (c3 = CHR ''f'' \<or> c3 = CHR ''F'')
      | _ \<Rightarrow> False)"

definition replace_pdf_ext :: "string \<Rightarrow> string" where
  "replace_pdf_ext s =
     (if 4 \<le> length s \<and> matches_pdf_ext (drop (length s - 4) s)
      then take (length s - 4) s else s)"

text \<open>\<^verbatim>\<open>String.prototype.trim\<close>: white space and line terminators are removed at both
  ends. The code units below 256 that count: tab, line feed, vertical tab, form feed,
  carriage return, space and the no-break space.\<close>

definition is_space :: "char \<Rightarrow> bool" where
  "is_space c = ((of_char c :: nat) \<in> {9, 10, 11, 12, 13, 32, 160})"

definition trim :: "string \<Rightarrow> string" where
  "trim s = rev (dropWhile is_space (rev (dropWhile is_space s)))"

subsection \<open>db.ts: two object stores keyed by id\<close>

text \<open>An object store holds at most one record under a key and lists its records in
  key order; string keys are compared code unit by code unit, a proper prefix first, which
  is the order of \<^typ>\<open>string\<close> here. \<open>put\<close> replaces the record with that key or
  inserts a new one at its place; both stores take the key from the record's \<^verbatim>\<open>id\<close>.\<close>

type_synonym 'a object_store = "(string \<times> 'a) list"

type_synonym fault = "string option"

fun store_put :: "string \<Rightarrow> 'a \<Rightarrow> 'a object_store \<Rightarrow> 'a object_store" where
  "store_put k v [] = [(k, v)]"
| "store_put k v ((k', v') # kvs) =
     (if k = k' then (k, v) # kvs
      else if k < k' then (k, v) # (k', v') # kvs
      else (k', v') # store_put k v kvs)"

definition store_getAll :: "'a object_store \<Rightarrow> 'a list" where
  "store_getAll st = map snd st"

definition store_delete :: "string \<Rightarrow> 'a object_store \<Rightarrow> 'a object_store" where
  "store_delete k st = filter (\<lambda>kv. fst kv \<noteq> k) st"

datatype view = PlaylistsView | ViewerView

record world =
  cur_view :: view
  currentFile :: "SheetMusic option"
  allMusic :: "SheetMusic list"
  playlists :: "Playlist list"
  isModalOpen :: bool
  isLoading :: bool
  db_sheetMusic :: "SheetMusic object_store"
  db_playlists :: "Playlist object_store"

definition saveSheetMusic :: "fault \<Rightarrow> SheetMusic \<Rightarrow> world \<Rightarrow> string + world" where
  "saveSheetMusic fault music w =
     (case fault of
        Some e \<Rightarrow> Inl e
      | None \<Rightarrow> Inr (w\<lparr>db_sheetMusic := store_put (sm_id music) music (db_sheetMusic w)\<rparr>))"

definition getAllSheetMusic :: "fault \<Rightarrow> world \<Rightarrow> string + SheetMusic list" where
  "getAllSheetMusic fault w =
     (case fault of Some e \<Rightarrow> Inl e | None \<Rightarrow> Inr (store_getAll (db_sheetMusic w)))"

definition deleteSheetMusic :: "fault \<Rightarrow> string \<Rightarrow> world \<Rightarrow> string + world" where
  "deleteSheetMusic fault k w =
     (case fault of
        Some e \<Rightarrow> Inl e
      | None \<Rightarrow> Inr (w\<lparr>db_sheetMusic := store_delete k (db_sheetMusic w)\<rparr>))"

definition savePlaylist :: "fault \<Rightarrow> Playlist \<Rightarrow> world \<Rightarrow> string + world" where
  "savePlaylist fault playlist w =
     (case fault of
        Some e \<Rightarrow> Inl e
      | None \<Rightarrow> Inr (w\<lparr>db_playlists := store_put (pl_id playlist) playlist (db_playlists w)\<rparr>))"

definition getAllPlaylists :: "fault \<Rightarrow> world \<Rightarrow> string + Playlist list" where
  "getAllPlaylists fault w =
     (case fault of Some e \<Rightarrow> Inl e | None \<Rightarrow> Inr (store_getAll (db_playlists w)))"

definition deletePlaylist :: "fault \<Rightarrow> string \<Rightarrow> world \<Rightarrow> string + world" where
  "deletePlaylist fault k w =
     (case fault of
        Some e \<Rightarrow> Inl e
      | None \<Rightarrow> Inr (w\<lparr>db_playlists := store_delete k (db_playlists w)\<rparr>))"

subsection \<open>App.tsx\<close>

text \<open>What the user is shown: nothing, an \<^verbatim>\<open>alert\<close>, or nothing because the handler's
  promise was rejected by a failed store request.\<close>

datatype notice = Silent | Alert string | Rejected string

text \<open>The component as first rendered over a given database, before anything is loaded.\<close>

definition mount :: "SheetMusic object_store \<Rightarrow> Playlist object_store \<Rightarrow> world" where
  "mount sm pl =
     \<lparr>cur_view = PlaylistsView, currentFile = None, allMusic = [], playlists = [],
      isModalOpen = False, isLoading = True, db_sheetMusic = sm, db_playlists = pl\<rparr>"

definition init :: world where
  "init = mount [] []"

text \<open>The effect run on mount: both collections are read; if either read fails nothing
  is set and the user is told.\<close>

definition loadData :: "fault \<Rightarrow> fault \<Rightarrow> world \<Rightarrow> world \<times> notice" where
  "loadData fault_music fault_pls w =
     (case getAllSheetMusic fault_music w of
        Inl e \<Rightarrow> (w\<lparr>isLoading := False\<rparr>,
                  Alert ''Could not load your music library. Please try again.'')
      | Inr music \<Rightarrow>
          (case getAllPlaylists fault_pls w of
             Inl e \<Rightarrow> (w\<lparr>isLoading := False\<rparr>,
                       Alert ''Could not load your music library. Please try again.'')
           | Inr pls \<Rightarrow> (w\<lparr>allMusic := music, playlists := pls, isLoading := False\<rparr>, Silent)))"

text \<open>Closing the application and opening it again: a new component over the same
  database, then the load.\<close>

definition reload :: "fault \<Rightarrow> fault \<Rightarrow> world \<Rightarrow> world \<times> notice" where
  "reload fault_music fault_pls w =
     loadData fault_music fault_pls (mount (db_sheetMusic w) (db_playlists w))"

record js_file =
  file_name :: string
  file_type :: string

text \<open>Lines 93 to 97: the item built from a converted file.\<close>

definition newFile :: "int \<Rightarrow> string \<Rightarrow> string \<Rightarrow> string list \<Rightarrow> SheetMusic" where
  "newFile now rnd fname pgs =
     \<lparr>sm_id = ''file-'' @ number_toString now @ ''-'' @ rnd,
      sm_name = replace_pdf_ext fname,
      pages = pgs\<rparr>"

text \<open>\<open>conv\<close> is what lines 62 to 91 produce: the page images in page order, or the
  message of the exception thrown while reading or rendering the document.\<close>

definition handleFileSelect ::
  "js_file option \<Rightarrow> string + string list \<Rightarrow> int \<Rightarrow> string \<Rightarrow> fault \<Rightarrow> world \<Rightarrow> world \<times> notice"
where
  "handleFileSelect file conv now rnd fault w =
     (case file of
        None \<Rightarrow> (w, Silent)
      | Some f \<Rightarrow>
          if \<not> str_includes (file_type f) ''pdf'' \<and>
             \<not> endsWith (toLowerCase (file_name f)) ''.pdf''
          then (w, Alert ''Please select a valid PDF file.'')
          else
            let w1 = w\<lparr>isLoading := True\<rparr>;
                failed = (\<lambda>msg.
                  (w1\<lparr>isLoading := False\<rparr>,
                   Alert (''Failed to process PDF. It might be corrupted or invalid. Error: ''
                          @ msg)))
            in (case conv of
                  Inl msg \<Rightarrow> failed msg
                | Inr pgs \<Rightarrow>
                    let nf = newFile now rnd (file_name f) pgs
                    in (case saveSheetMusic fault nf w1 of
                          Inl msg \<Rightarrow> failed msg
                        | Inr w2 \<Rightarrow>
                            (w2\<lparr>allMusic := allMusic w2 @ [nf], currentFile := Some nf,
                                cur_view := ViewerView, isLoading := False\<rparr>, Silent))))"

definition newPlaylist :: "int \<Rightarrow> string \<Rightarrow> Playlist" where
  "newPlaylist now nm = \<lparr>pl_id = ''pl-'' @ number_toString now, pl_name = nm, itemIds = []\<rparr>"

definition handleCreatePlaylist :: "int \<Rightarrow> fault \<Rightarrow> string \<Rightarrow> world \<Rightarrow> world \<times> notice" where
  "handleCreatePlaylist now fault nm w =
     (let np = newPlaylist now nm
      in case savePlaylist fault np w of
           Inl e \<Rightarrow> (w, Rejected e)
         | Inr w1 \<Rightarrow> (w1\<lparr>playlists := playlists w1 @ [np]\<rparr>, Silent))"

definition handleDeletePlaylist :: "bool \<Rightarrow> fault \<Rightarrow> string \<Rightarrow> world \<Rightarrow> world \<times> notice" where
  "handleDeletePlaylist confirmed fault pid w =
     (if confirmed
      then (case deletePlaylist fault pid w of
              Inl e \<Rightarrow> (w, Rejected e)
            | Inr w1 \<Rightarrow> (w1\<lparr>playlists := filter (\<lambda>pl. pl_id pl \<noteq> pid) (playlists w1)\<rparr>, Silent))
      else (w, Silent))"

text \<open>The two alerts of \<^verbatim>\<open>handleAddToPlaylist\<close>; \<open>CHR 0x27\<close> is the single quote.\<close>

definition quoted :: "string \<Rightarrow> string" where
  "quoted s = [CHR 0x27] @ s @ [CHR 0x27]"

definition msg_already :: "SheetMusic \<Rightarrow> string" where
  "msg_already cf = quoted (sm_name cf) @ '' is already in this playlist.''"

definition msg_added :: "SheetMusic \<Rightarrow> Playlist \<Rightarrow> string" where
  "msg_added cf playlist =
     ''Added '' @ quoted (sm_name cf) @ '' to '' @ quoted (pl_name playlist) @ ''.''"

definition handleAddToPlaylist :: "fault \<Rightarrow> string \<Rightarrow> world \<Rightarrow> world \<times> notice" where
  "handleAddToPlaylist fault playlistId w =
     (case currentFile w of
        None \<Rightarrow> (w, Silent)
      | Some cf \<Rightarrow>
          (case find (\<lambda>p. pl_id p = playlistId) (playlists w) of
             None \<Rightarrow> (w, Silent)
           | Some playlist \<Rightarrow>
               if sm_id cf \<in> set (itemIds playlist)
               then (w, Alert (msg_already cf))
               else
                 let updatedPlaylist = playlist\<lparr>itemIds := itemIds playlist @ [sm_id cf]\<rparr>
                 in (case savePlaylist fault updatedPlaylist w of
                       Inl e \<Rightarrow> (w, Rejected e)
                     | Inr w1 \<Rightarrow>
                         (w1\<lparr>playlists :=
                                map (\<lambda>pl. if pl_id pl = playlistId then updatedPlaylist else pl)
                                  (playlists w1),
                              isModalOpen := False\<rparr>,
                          Alert (msg_added cf playlist)))))"

definition handleRemoveFromPlaylist ::
  "fault \<Rightarrow> string \<Rightarrow> string \<Rightarrow> world \<Rightarrow> world \<times> notice"
where
  "handleRemoveFromPlaylist fault playlistId fileId w =
     (case find (\<lambda>p. pl_id p = playlistId) (playlists w) of
        None \<Rightarrow> (w, Silent)
      | Some playlist \<Rightarrow>
          let updatedPlaylist = playlist\<lparr>itemIds := filter (\<lambda>i. i \<noteq> fileId) (itemIds playlist)\<rparr>
          in (case savePlaylist fault updatedPlaylist w of
                Inl e \<Rightarrow> (w, Rejected e)
              | Inr w1 \<Rightarrow>
                  (w1\<lparr>playlists :=
                         map (\<lambda>pl. if pl_id pl = playlistId then updatedPlaylist else pl)
                           (playlists w1)\<rparr>,
                   Silent)))"

definition handleSelectFileFromPlaylist :: "SheetMusic \<Rightarrow> world \<Rightarrow> world" where
  "handleSelectFileFromPlaylist f w = w\<lparr>currentFile := Some f, cur_view := ViewerView\<rparr>"

definition handleCloseViewer :: "world \<Rightarrow> world" where
  "handleCloseViewer w = w\<lparr>cur_view := PlaylistsView, currentFile := None\<rparr>"

text \<open>The \<^verbatim>\<open>Map\<close> constructor sets the entries one after the other, so of two items
  with one id the later one is kept.\<close>

definition musicMap :: "SheetMusic list \<Rightarrow> (string \<rightharpoonup> SheetMusic)" where
  "musicMap music = fold (\<lambda>m mp. mp(sm_id m \<mapsto> m)) music Map.empty"

definition hydratedPlaylists :: "Playlist list \<Rightarrow> SheetMusic list \<Rightarrow> HydratedPlaylist list" where
  "hydratedPlaylists pls music =
     (let mm = musicMap music
      in map (\<lambda>pl. \<lparr>hp_id = pl_id pl, hp_name = pl_name pl,
                    hp_items = map the (filter (\<lambda>item. item \<noteq> None) (map mm (itemIds pl)))\<rparr>)
           pls)"

subsection \<open>PlaylistView.tsx\<close>

text \<open>The click on the create button: the view holds the text typed so far
  (\<^verbatim>\<open>newPlaylistName\<close>), which is the first component of the result.\<close>

definition PlaylistView_handleCreatePlaylist ::
  "int \<Rightarrow> fault \<Rightarrow> string \<Rightarrow> world \<Rightarrow> string \<times> world \<times> notice"
where
  "PlaylistView_handleCreatePlaylist now fault newPlaylistName w =
     (if trim newPlaylistName \<noteq> []
      then ([], handleCreatePlaylist now fault (trim newPlaylistName) w)
      else (newPlaylistName, w, Silent))"

subsection \<open>User actions and runs\<close>

text \<open>One constructor for each thing the interface lets the user do, with what the
  handler reads from its environment; a run applies a list of them in order.\<close>

datatype action =
    FileSelect "js_file option" "string + string list" int string fault
  | CreateClick int fault string
  | DeleteClick bool fault string
  | AddClick fault string
  | RemoveClick fault string string
  | SelectFile SheetMusic
  | OpenModal
  | CloseModal
  | CloseViewer
  | Reload fault fault

fun step :: "action \<Rightarrow> world \<Rightarrow> world" where
  "step (FileSelect file conv now rnd fault) w = fst (handleFileSelect file conv now rnd fault w)"
| "step (CreateClick now fault raw) w =
     fst (snd (PlaylistView_handleCreatePlaylist now fault raw w))"
| "step (DeleteClick confirmed fault pid) w = fst (handleDeletePlaylist confirmed fault pid w)"
| "step (AddClick fault pid) w = fst (handleAddToPlaylist fault pid w)"
| "step (RemoveClick fault pid fid) w = fst (handleRemoveFromPlaylist fault pid fid w)"
| "step (SelectFile f) w = handleSelectFileFromPlaylist f w"
| "step OpenModal w = w\<lparr>isModalOpen := True\<rparr>"
| "step CloseModal w = w\<lparr>isModalOpen := False\<rparr>"
| "step CloseViewer w = handleCloseViewer w"
| "step (Reload fault_music fault_pls) w = fst (reload fault_music fault_pls w)"

fun run :: "world \<Rightarrow> action list \<Rightarrow> world" where
  "run w [] = w"
| "run w (a # as) = run (step a w) as"

text \<open>No playlist, cached or stored, lists an item id twice.\<close>

definition no_duplicate_members :: "world \<Rightarrow> bool" where
  "no_duplicate_members w =
     (list_all (\<lambda>p. distinct (itemIds p)) (playlists w) \<and>
      list_all (\<lambda>kv. distinct (itemIds (snd kv))) (db_playlists w))"

text \<open>The keys of an object store as IndexedDB keeps them: in strictly ascending order.\<close>

definition key_ordered :: "'a object_store \<Rightarrow> bool" where
  "key_ordered st = sorted_wrt (<) (map fst st)"

subsection \<open>Hydration as the specification words it\<close>

text \<open>The ids of a playlist are taken in order through a lookup from id to item; an id
  the lookup does not resolve is dropped.\<close>

fun resolve :: "(string \<rightharpoonup> SheetMusic) \<Rightarrow> string list \<Rightarrow> SheetMusic list" where
  "resolve lookup [] = []"
| "resolve lookup (i # ids) =
     (case lookup i of None \<Rightarrow> resolve lookup ids | Some m \<Rightarrow> m # resolve lookup ids)"

definition hydrate_spec :: "(string \<rightharpoonup> SheetMusic) \<Rightarrow> Playlist list \<Rightarrow> HydratedPlaylist list" where
  "hydrate_spec lookup pls =
     map (\<lambda>pl. \<lparr>hp_id = pl_id pl, hp_name = pl_name pl, hp_items = resolve lookup (itemIds pl)\<rparr>) pls"

subsection \<open>A concrete session\<close>

text \<open>A playlist is created (the name typed with blanks around it), then a two-page document
  is imported; \<open>session_world\<close> is the state this leaves.\<close>

definition sonata_file :: js_file where
  "sonata_file = \<lparr>file_name = ''Sonata.pdf'', file_type = ''application/pdf''\<rparr>"

definition sonata :: SheetMusic where
  "sonata = \<lparr>sm_id = ''file-1700000000001-0.5'', sm_name = ''Sonata'', pages = [''page1'', ''page2'']\<rparr>"

definition practice :: Playlist where
  "practice = \<lparr>pl_id = ''pl-1700000000000'', pl_name = ''Practice'', itemIds = []\<rparr>"

definition session :: "action list" where
  "session =
     [CreateClick 1700000000000 None ''  Practice '',
      FileSelect (Some sonata_file) (Inr [''page1'', ''page2'']) 1700000000001 ''0.5'' None]"

definition session_world :: world where
  "session_world =
     \<lparr>cur_view = ViewerView, currentFile = Some sonata, allMusic = [sonata],
      playlists = [practice], isModalOpen = False, isLoading = False,
      db_sheetMusic = [(''file-1700000000001-0.5'', sonata)],
      db_playlists = [(''pl-1700000000000'', practice)]\<rparr>"

text \<open>The same state after the open item has been added to the playlist.\<close>

definition practice_sonata :: Playlist where
  "practice_sonata =
     \<lparr>pl_id = ''pl-1700000000000'', pl_name = ''Practice'',
      itemIds = [''file-1700000000001-0.5'']\<rparr>"

definition member_world :: world where
  "member_world =
     \<lparr>cur_view = ViewerView, currentFile = Some sonata, allMusic = [sonata],
      playlists = [practice_sonata], isModalOpen = False, isLoading = False,
      db_sheetMusic = [(''file-1700000000001-0.5'', sonata)],
      db_playlists = [(''pl-1700000000000'', practice_sonata)]\<rparr>"


section \<open>Auxiliary facts\<close>

subsection \<open>Decimal text and the object store\<close>

lemma digit_char_code: "d < 10 \<Longrightarrow> (of_char (digit_char d) :: nat) = 48 + d"
proof -
  assume "d < 10"
  then have "d \<in> {0, 1, 2, 3, 4, 5, 6, 7, 8, 9}"
    by auto
  then show ?thesis
    by (auto simp: digit_char_def)
qed

lemma digit_char_inj: "d < 10 \<Longrightarrow> e < 10 \<Longrightarrow> digit_char d = digit_char e \<Longrightarrow> d = e"
proof -
  assume d: "d < 10" and e: "e < 10" and eq: "digit_char d = digit_char e"
  from eq have "(of_char (digit_char d) :: nat) = of_char (digit_char e)"
    by (rule arg_cong)
  then have "48 + d = 48 + e"
    by (simp only: digit_char_code [OF d] digit_char_code [OF e])
  then show ?thesis by linarith
qed

lemma digit_char_not_minus: "d < 10 \<Longrightarrow> digit_char d \<noteq> CHR ''-''"
proof
  assume d: "d < 10" and eq: "digit_char d = CHR ''-''"
  from eq have "(of_char (digit_char d) :: nat) = of_char (CHR ''-'')"
    by (rule arg_cong)
  then have "48 + d = (45 :: nat)"
    by (simp add: digit_char_code [OF d])
  then show False by linarith
qed

lemma digits_not_Nil: "digits n \<noteq> []"
  by (subst digits.simps) simp

lemma digits_no_minus: "CHR ''-'' \<notin> set (digits n)"
proof (induction n rule: digits.induct)
  case (1 n)
  show ?case
  proof (cases "n < 10")
    case True
    then show ?thesis
      using digit_char_not_minus [of n] by (subst digits.simps) auto
  next
    case False
    have "n mod 10 < 10" by simp
    then have "digit_char (n mod 10) \<noteq> CHR ''-''" by (rule digit_char_not_minus)
    with False 1 show ?thesis
      by (subst digits.simps) auto
  qed
qed

lemma digits_inj: "digits n = digits m \<Longrightarrow> n = m"
proof (induction n arbitrary: m rule: digits.induct)
  case (1 n)
  show ?case
  proof (cases "n < 10")
    case n: True
    show ?thesis
    proof (cases "m < 10")
      case True
      with n 1(2) show ?thesis
        by (simp add: digits.simps [of n] digits.simps [of m] digit_char_inj)
    next
      case False
      with n 1(2) show ?thesis
        using digits_not_Nil [of "m div 10"]
        by (simp add: digits.simps [of n] digits.simps [of m])
    qed
  next
    case n: False
    show ?thesis
    proof (cases "m < 10")
      case True
      with n 1(2) show ?thesis
        using digits_not_Nil [of "n div 10"]
        by (simp add: digits.simps [of n] digits.simps [of m])
    next
      case False
      with n 1(2) have eq: "digits (n div 10) = digits (m div 10)"
        and last: "digit_char (n mod 10) = digit_char (m mod 10)"
        by (simp_all add: digits.simps [of n] digits.simps [of m])
      from 1(1) [OF n eq] have "n div 10 = m div 10" .
      moreover from last have "n mod 10 = m mod 10"
        by (intro digit_char_inj) simp_all
      ultimately show ?thesis
        by (metis div_mult_mod_eq)
    qed
  qed
qed

lemma number_toString_inj: "number_toString i = number_toString j \<Longrightarrow> i = j"
proof -
  assume eq: "number_toString i = number_toString j"
  have hd_digit: "hd (digits n) \<noteq> CHR ''-''" for n
    using digits_no_minus [of n] digits_not_Nil [of n] by (cases "digits n") auto
  show ?thesis
  proof (cases "i < 0")
    case i: True
    show ?thesis
    proof (cases "j < 0")
      case True
      with i eq have "digits (nat (- i)) = digits (nat (- j))"
        by (simp add: number_toString_def)
      then have "nat (- i) = nat (- j)" by (rule digits_inj)
      with i True show ?thesis by linarith
    next
      case False
      with i eq have "CHR ''-'' # digits (nat (- i)) = digits (nat j)"
        by (simp add: number_toString_def)
      then have "hd (digits (nat j)) = CHR ''-''" by (metis list.sel(1))
      with hd_digit show ?thesis by blast
    qed
  next
    case i: False
    show ?thesis
    proof (cases "j < 0")
      case True
      with i eq have "digits (nat i) = CHR ''-'' # digits (nat (- j))"
        by (simp add: number_toString_def)
      then have "hd (digits (nat i)) = CHR ''-''" by (metis list.sel(1))
      with hd_digit show ?thesis by blast
    next
      case False
      with i eq have "digits (nat i) = digits (nat j)"
        by (simp add: number_toString_def)
      then have "nat i = nat j" by (rule digits_inj)
      with i False show ?thesis by linarith
    qed
  qed
qed

text \<open>Splitting at the first minus sign after a run of characters that are not one.\<close>
lemma split_at_minus:
  "CHR ''-'' \<notin> set xs \<Longrightarrow> CHR ''-'' \<notin> set ys \<Longrightarrow>
   xs @ CHR ''-'' # r1 = ys @ CHR ''-'' # r2 \<Longrightarrow> xs = ys \<and> r1 = r2"
proof (induction xs arbitrary: ys)
  case Nil
  then show ?case by (cases ys) auto
next
  case (Cons x xs)
  then show ?case by (cases ys) auto
qed

lemma number_dash_inj:
  "number_toString i @ CHR ''-'' # r1 = number_toString j @ CHR ''-'' # r2 \<Longrightarrow> i = j \<and> r1 = r2"
proof -
  assume eq: "number_toString i @ CHR ''-'' # r1 = number_toString j @ CHR ''-'' # r2"
  have hd_digit: "hd (digits n) \<noteq> CHR ''-''" for n
    using digits_no_minus [of n] digits_not_Nil [of n] by (cases "digits n") auto
  have nonneg: "digits a @ CHR ''-'' # r1 = digits b @ CHR ''-'' # r2 \<Longrightarrow> a = b \<and> r1 = r2" for a b
    using split_at_minus [OF digits_no_minus digits_no_minus] digits_inj by blast
  have mixed: "CHR ''-'' # digits a @ CHR ''-'' # s = digits b @ CHR ''-'' # t \<Longrightarrow> False" for a b s t
    using hd_digit [of b] digits_not_Nil [of b] by (cases "digits b") auto
  show ?thesis
  proof (cases "i < 0")
    case i: True
    show ?thesis
    proof (cases "j < 0")
      case True
      with i eq have "nat (- i) = nat (- j) \<and> r1 = r2"
        by (intro nonneg) (simp add: number_toString_def)
      with i True show ?thesis by linarith
    next
      case False
      with i eq mixed [of "nat (- i)" r1 "nat j" r2] show ?thesis
        by (simp add: number_toString_def)
    qed
  next
    case i: False
    show ?thesis
    proof (cases "j < 0")
      case True
      with i eq mixed [of "nat (- j)" r2 "nat i" r1] show ?thesis
        by (simp add: number_toString_def)
    next
      case False
      with i eq have "nat i = nat j \<and> r1 = r2"
        by (intro nonneg) (simp add: number_toString_def)
      with i False show ?thesis by linarith
    qed
  qed
qed

lemma store_put_mem: "(k, v) \<in> set (store_put k v st)"
  by (induction st) auto

lemma store_put_subset: "set (store_put k v st) \<subseteq> insert (k, v) (set st)"
  by (induction st) (auto split: if_splits)

lemma store_put_idem: "store_put k v (store_put k v st) = store_put k v st"
  by (induction st) auto

lemma store_put_list_all: "P (k, v) \<Longrightarrow> list_all P st \<Longrightarrow> list_all P (store_put k v st)"
  by (induction st) auto

lemma store_put_same:
  "key_ordered st \<Longrightarrow> (k, v) \<in> set st \<Longrightarrow> store_put k v st = st"
proof (induction st)
  case Nil
  then show ?case by simp
next
  case (Cons a st)
  obtain k' v' where a: "a = (k', v')" by (cases a)
  from Cons.prems(1) have ord: "key_ordered st" and above: "\<forall>x \<in> set st. k' < fst x"
    by (auto simp: key_ordered_def a)
  show ?case
  proof (cases "k = k'")
    case True
    with above Cons.prems(2) have "v = v'" by (auto simp: a)
    with True show ?thesis by (simp add: a)
  next
    case False
    with Cons.prems(2) have mem: "(k, v) \<in> set st" by (simp add: a)
    with above have "k' < k" by auto
    then have "\<not> k < k'" by simp
    with False Cons.IH [OF ord mem] show ?thesis by (simp add: a)
  qed
qed

lemma store_put_key_ordered: "key_ordered st \<Longrightarrow> key_ordered (store_put k v st)"
proof (induction st)
  case Nil
  then show ?case by (simp add: key_ordered_def)
next
  case (Cons a st)
  obtain k' v' where a: "a = (k', v')" by (cases a)
  from Cons.prems have ord: "key_ordered st" and above: "\<forall>x \<in> set st. k' < fst x"
    by (auto simp: key_ordered_def a)
  have sub: "fst ` set (store_put k v st) \<subseteq> insert k (fst ` set st)"
    using store_put_subset [of k v st] by auto
  show ?case
  proof (cases "k = k'")
    case True
    with Cons.prems show ?thesis by (simp add: a key_ordered_def)
  next
    case ne: False
    show ?thesis
    proof (cases "k < k'")
      case True
      with ne Cons.prems above show ?thesis 
        by (auto simp: a key_ordered_def)
    next
      case False
      with ne have "k' < k" by simp
      with sub above have "\<forall>x \<in> set (store_put k v st). k' < fst x" by fastforce
      with ne False Cons.IH [OF ord] show ?thesis
        by (simp add: a key_ordered_def)
    qed
  qed
qed

lemma store_delete_key_ordered: "key_ordered st \<Longrightarrow> key_ordered (store_delete k st)"
  unfolding key_ordered_def store_delete_def
  by (induction st) auto


subsection \<open>The handlers, case by case\<close>

lemma find_Some_id: "find (\<lambda>p. pl_id p = pid) pls = Some p \<Longrightarrow> pl_id p = pid \<and> p \<in> set pls"
  by (auto simp: find_Some_iff)

lemma find_replace_same:
  "find (\<lambda>p. pl_id p = pid) pls = Some p \<Longrightarrow> pl_id u = pid \<Longrightarrow>
   find (\<lambda>p. pl_id p = pid) (map (\<lambda>pl. if pl_id pl = pid then u else pl) pls) = Some u"
  by (induction pls) (auto split: if_splits)

lemma find_replace_other:
  "q \<noteq> pid \<Longrightarrow> pl_id u = pid \<Longrightarrow>
   find (\<lambda>p. pl_id p = q) (map (\<lambda>pl. if pl_id pl = pid then u else pl) pls) =
   find (\<lambda>p. pl_id p = q) pls"
  by (induction pls) auto

lemma list_all_replace:
  "list_all P pls \<Longrightarrow> P u \<Longrightarrow> list_all P (map (\<lambda>pl. if pl_id pl = pid then u else pl) pls)"
  by (induction pls) auto

lemma list_all_filter_keep: "list_all P xs \<Longrightarrow> list_all P (filter Q xs)"
  by (induction xs) auto

lemma add_no_selection:
  "currentFile w = None \<Longrightarrow> handleAddToPlaylist fault pid w = (w, Silent)"
  by (simp add: handleAddToPlaylist_def)

lemma add_no_playlist:
  "find (\<lambda>p. pl_id p = pid) (playlists w) = None \<Longrightarrow> handleAddToPlaylist fault pid w = (w, Silent)"
  by (simp add: handleAddToPlaylist_def split: option.splits)

lemma add_already:
  "currentFile w = Some cf \<Longrightarrow> find (\<lambda>p. pl_id p = pid) (playlists w) = Some p \<Longrightarrow>
   sm_id cf \<in> set (itemIds p) \<Longrightarrow>
   handleAddToPlaylist fault pid w = (w, Alert (msg_already cf))"
  by (simp add: handleAddToPlaylist_def)

lemma add_rejected:
  "currentFile w = Some cf \<Longrightarrow> find (\<lambda>p. pl_id p = pid) (playlists w) = Some p \<Longrightarrow>
   sm_id cf \<notin> set (itemIds p) \<Longrightarrow>
   handleAddToPlaylist (Some e) pid w = (w, Rejected e)"
  by (simp add: handleAddToPlaylist_def savePlaylist_def)

lemma add_committed:
  "currentFile w = Some cf \<Longrightarrow> find (\<lambda>p. pl_id p = pid) (playlists w) = Some p \<Longrightarrow>
   sm_id cf \<notin> set (itemIds p) \<Longrightarrow>
   handleAddToPlaylist None pid w =
     (w\<lparr>db_playlists := store_put pid (p\<lparr>itemIds := itemIds p @ [sm_id cf]\<rparr>) (db_playlists w),
        playlists := map (\<lambda>pl. if pl_id pl = pid then p\<lparr>itemIds := itemIds p @ [sm_id cf]\<rparr> else pl)
                       (playlists w),
        isModalOpen := False\<rparr>,
      Alert (msg_added cf p))"
  using find_Some_id [of pid "playlists w" p]
  by (simp add: handleAddToPlaylist_def savePlaylist_def Let_def)

lemma remove_no_playlist:
  "find (\<lambda>p. pl_id p = pid) (playlists w) = None \<Longrightarrow>
   handleRemoveFromPlaylist fault pid fid w = (w, Silent)"
  by (simp add: handleRemoveFromPlaylist_def)

lemma remove_rejected:
  "find (\<lambda>p. pl_id p = pid) (playlists w) = Some p \<Longrightarrow>
   handleRemoveFromPlaylist (Some e) pid fid w = (w, Rejected e)"
  by (simp add: handleRemoveFromPlaylist_def savePlaylist_def)

lemma remove_committed:
  "find (\<lambda>p. pl_id p = pid) (playlists w) = Some p \<Longrightarrow>
   handleRemoveFromPlaylist None pid fid w =
     (w\<lparr>db_playlists := store_put pid (p\<lparr>itemIds := filter (\<lambda>i. i \<noteq> fid) (itemIds p)\<rparr>) (db_playlists w),
        playlists := map (\<lambda>pl. if pl_id pl = pid then p\<lparr>itemIds := filter (\<lambda>i. i \<noteq> fid) (itemIds p)\<rparr> else pl)
                       (playlists w)\<rparr>,
      Silent)"
  using find_Some_id [of pid "playlists w" p]
  by (simp add: handleRemoveFromPlaylist_def savePlaylist_def Let_def)


subsection \<open>Membership lists stay free of duplicates\<close>

lemma put_keeps_distinct:
  "list_all (\<lambda>kv. distinct (itemIds (snd kv))) st \<Longrightarrow> distinct (itemIds u) \<Longrightarrow>
   list_all (\<lambda>kv. distinct (itemIds (snd kv))) (store_put k u st)"
  by (rule store_put_list_all) simp_all

lemma found_distinct:
  "no_duplicate_members w \<Longrightarrow> find (\<lambda>p. pl_id p = pid) (playlists w) = Some p \<Longrightarrow>
   distinct (itemIds p)"
  using find_Some_id [of pid "playlists w" p]
  by (simp add: no_duplicate_members_def list_all_iff)

lemma add_no_dup:
  assumes inv: "no_duplicate_members w"
  shows "no_duplicate_members (fst (handleAddToPlaylist fault pid w))"
proof (cases "currentFile w")
  case None
  with inv show ?thesis by (simp add: add_no_selection)
next
  case (Some cf)
  show ?thesis
  proof (cases "find (\<lambda>p. pl_id p = pid) (playlists w)")
    case None
    with inv show ?thesis by (simp add: add_no_playlist)
  next
    case p: (Some p)
    show ?thesis
    proof (cases "sm_id cf \<in> set (itemIds p)")
      case True
      with inv Some p show ?thesis by (simp add: add_already)
    next
      case new: False
      show ?thesis
      proof (cases fault)
        case (Some e)
        with inv \<open>currentFile w = Some cf\<close> p new show ?thesis by (simp add: add_rejected)
      next
        case None
        from found_distinct [OF inv p] new
        have d: "distinct (itemIds (p\<lparr>itemIds := itemIds p @ [sm_id cf]\<rparr>))" by simp
        from inv have c: "list_all (\<lambda>p. distinct (itemIds p)) (playlists w)"
          and s: "list_all (\<lambda>kv. distinct (itemIds (snd kv))) (db_playlists w)"
          by (simp_all add: no_duplicate_members_def)
        show ?thesis
          unfolding None add_committed [OF \<open>currentFile w = Some cf\<close> p new]
          using list_all_replace [OF c d] put_keeps_distinct [OF s d]
          by (simp add: no_duplicate_members_def)
      qed
    qed
  qed
qed

lemma remove_no_dup:
  assumes inv: "no_duplicate_members w"
  shows "no_duplicate_members (fst (handleRemoveFromPlaylist fault pid fid w))"
proof (cases "find (\<lambda>p. pl_id p = pid) (playlists w)")
  case None
  with inv show ?thesis by (simp add: remove_no_playlist)
next
  case p: (Some p)
  show ?thesis
  proof (cases fault)
    case (Some e)
    with inv p show ?thesis by (simp add: remove_rejected)
  next
    case None
    from found_distinct [OF inv p]
    have d: "distinct (itemIds (p\<lparr>itemIds := filter (\<lambda>i. i \<noteq> fid) (itemIds p)\<rparr>))" by simp
    from inv have c: "list_all (\<lambda>p. distinct (itemIds p)) (playlists w)"
      and s: "list_all (\<lambda>kv. distinct (itemIds (snd kv))) (db_playlists w)"
      by (simp_all add: no_duplicate_members_def)
    show ?thesis
      unfolding None remove_committed [OF p]
      using list_all_replace [OF c d] put_keeps_distinct [OF s d]
      by (simp add: no_duplicate_members_def)
  qed
qed

lemma create_no_dup:
  assumes inv: "no_duplicate_members w"
  shows "no_duplicate_members (fst (handleCreatePlaylist now fault nm w))"
proof (cases fault)
  case (Some e)
  with inv show ?thesis by (simp add: handleCreatePlaylist_def savePlaylist_def)
next
  case None
  have d: "distinct (itemIds (newPlaylist now nm))" by (simp add: newPlaylist_def)
  from inv have c: "list_all (\<lambda>p. distinct (itemIds p)) (playlists w)"
    and s: "list_all (\<lambda>kv. distinct (itemIds (snd kv))) (db_playlists w)"
    by (simp_all add: no_duplicate_members_def)
  from c d put_keeps_distinct [OF s d, of "pl_id (newPlaylist now nm)"] show ?thesis
    by (simp add: None handleCreatePlaylist_def savePlaylist_def Let_def no_duplicate_members_def)
qed

lemma delete_no_dup:
  assumes inv: "no_duplicate_members w"
  shows "no_duplicate_members (fst (handleDeletePlaylist confirmed fault pid w))"
proof -
  from inv have c: "list_all (\<lambda>p. distinct (itemIds p)) (playlists w)"
    and s: "list_all (\<lambda>kv. distinct (itemIds (snd kv))) (db_playlists w)"
    by (simp_all add: no_duplicate_members_def)
  from inv list_all_filter_keep [OF c] list_all_filter_keep [OF s] show ?thesis
    by (cases fault)
      (simp_all add: handleDeletePlaylist_def deletePlaylist_def store_delete_def
        no_duplicate_members_def)
qed

lemma fileSelect_playlists:
  "playlists (fst (handleFileSelect fl conv now rnd fault w)) = playlists w \<and>
   db_playlists (fst (handleFileSelect fl conv now rnd fault w)) = db_playlists w"
  by (cases fault)
    (simp_all add: handleFileSelect_def saveSheetMusic_def Let_def
      split: option.splits sum.splits)

lemma reload_no_dup:
  assumes inv: "no_duplicate_members w"
  shows "no_duplicate_members (fst (reload fm fp w))"
proof -
  from inv have s: "list_all (\<lambda>kv. distinct (itemIds (snd kv))) (db_playlists w)"
    by (simp add: no_duplicate_members_def)
  then have "list_all (\<lambda>p. distinct (itemIds p)) (store_getAll (db_playlists w))"
    by (simp add: store_getAll_def list_all_iff)
  with s show ?thesis
    by (cases fm; cases fp)
      (simp_all add: reload_def loadData_def mount_def getAllSheetMusic_def
        getAllPlaylists_def no_duplicate_members_def)
qed

lemma step_no_dup:
  assumes inv: "no_duplicate_members w"
  shows "no_duplicate_members (step a w)"
proof (cases a)
  case (FileSelect fl conv now rnd fault)
  with inv fileSelect_playlists [of fl conv now rnd fault w] show ?thesis
    by (simp add: no_duplicate_members_def)
next
  case (CreateClick now fault raw)
  with inv create_no_dup [OF inv] show ?thesis
    by (simp add: PlaylistView_handleCreatePlaylist_def)
next
  case (DeleteClick confirmed fault pid)
  with delete_no_dup [OF inv] show ?thesis by simp
next
  case (AddClick fault pid)
  with add_no_dup [OF inv] show ?thesis by simp
next
  case (RemoveClick fault pid fid)
  with remove_no_dup [OF inv] show ?thesis by simp
next
  case (SelectFile f)
  with inv show ?thesis
    by (simp add: no_duplicate_members_def handleSelectFileFromPlaylist_def)
next
  case OpenModal
  with inv show ?thesis by (simp add: no_duplicate_members_def)
next
  case CloseModal
  with inv show ?thesis by (simp add: no_duplicate_members_def)
next
  case CloseViewer
  with inv show ?thesis by (simp add: no_duplicate_members_def handleCloseViewer_def)
next
  case (Reload fm fp)
  with reload_no_dup [OF inv] show ?thesis by simp
qed

lemma run_no_dup: "no_duplicate_members w \<Longrightarrow> no_duplicate_members (run w as)"
  by (induction as arbitrary: w) (simp_all add: step_no_dup)

lemma init_no_dup: "no_duplicate_members init"
  by (simp add: no_duplicate_members_def init_def mount_def)

lemma msg_differ: "msg_already cf \<noteq> msg_added cf' p"
  by (simp add: msg_already_def msg_added_def quoted_def)


subsection \<open>The playlists store stays in key order\<close>

lemma add_store:
  "db_playlists (fst (handleAddToPlaylist fault pid w)) = db_playlists w \<or>
   (\<exists>u. db_playlists (fst (handleAddToPlaylist fault pid w)) = store_put pid u (db_playlists w))"
proof (cases "currentFile w")
  case None
  then show ?thesis by (simp add: add_no_selection)
next
  case cf: (Some cf)
  show ?thesis
  proof (cases "find (\<lambda>p. pl_id p = pid) (playlists w)")
    case None
    then show ?thesis by (simp add: add_no_playlist)
  next
    case p: (Some p)
    show ?thesis
    proof (cases "sm_id cf \<in> set (itemIds p)")
      case True
      with cf p show ?thesis by (simp add: add_already)
    next
      case new: False
      show ?thesis
      proof (cases fault)
        case None
        then show ?thesis by (auto simp: add_committed [OF cf p new])
      next
        case (Some e)
        then show ?thesis by (simp add: add_rejected [OF cf p new])
      qed
    qed
  qed
qed

lemma remove_store:
  "db_playlists (fst (handleRemoveFromPlaylist fault pid fid w)) = db_playlists w \<or>
   (\<exists>u. db_playlists (fst (handleRemoveFromPlaylist fault pid fid w)) =
          store_put pid u (db_playlists w))"
proof (cases "find (\<lambda>p. pl_id p = pid) (playlists w)")
  case None
  then show ?thesis by (simp add: remove_no_playlist)
next
  case p: (Some p)
  show ?thesis
  proof (cases fault)
    case None
    then show ?thesis by (auto simp: remove_committed [OF p])
  next
    case (Some e)
    then show ?thesis by (simp add: remove_rejected [OF p])
  qed
qed

lemma step_key_ordered:
  assumes ord: "key_ordered (db_playlists w)"
  shows "key_ordered (db_playlists (step a w))"
proof (cases a)
  case (FileSelect fl conv now rnd fault)
  with ord fileSelect_playlists [of fl conv now rnd fault w] show ?thesis by simp
next
  case (CreateClick now fault raw)
  with ord store_put_key_ordered [OF ord] show ?thesis
    by (cases fault)
      (simp_all add: PlaylistView_handleCreatePlaylist_def handleCreatePlaylist_def
        savePlaylist_def Let_def)
next
  case (DeleteClick confirmed fault pid)
  with ord store_delete_key_ordered [OF ord] show ?thesis
    by (cases fault) (simp_all add: handleDeletePlaylist_def deletePlaylist_def)
next
  case (AddClick fault pid)
  with ord store_put_key_ordered [OF ord] add_store [of fault pid w] show ?thesis
    by auto
next
  case (RemoveClick fault pid fid)
  with ord store_put_key_ordered [OF ord] remove_store [of fault pid fid w] show ?thesis
    by auto
next
  case (SelectFile f)
  with ord show ?thesis by (simp add: handleSelectFileFromPlaylist_def)
next
  case OpenModal
  with ord show ?thesis by simp
next
  case CloseModal
  with ord show ?thesis by simp
next
  case CloseViewer
  with ord show ?thesis by (simp add: handleCloseViewer_def)
next
  case (Reload fm fp)
  with ord show ?thesis
    by (cases fm; cases fp)
      (simp_all add: reload_def loadData_def mount_def getAllSheetMusic_def getAllPlaylists_def)
qed

lemma run_key_ordered: "key_ordered (db_playlists w) \<Longrightarrow> key_ordered (db_playlists (run w as))"
  by (induction as arbitrary: w) (simp_all add: step_key_ordered)

lemma init_key_ordered: "key_ordered (db_playlists init)"
  by (simp add: key_ordered_def init_def mount_def)


subsection \<open>Evaluating the concrete session\<close>

lemma digits_eval: "digits 1700000000000 = ''1700000000000''" "digits 1700000000001 = ''1700000000001''"
  by (simp_all add: digits.simps digit_char_def)

lemma number_eval:
  "number_toString 1700000000000 = ''1700000000000''"
  "number_toString 1700000000001 = ''1700000000001''"
  by (simp_all add: number_toString_def digits_eval)

lemma trim_eval: "trim ''  Practice '' = ''Practice''"
  by (simp add: trim_def is_space_def)

lemma newFile_eval: "newFile 1700000000001 ''0.5'' ''Sonata.pdf'' [''page1'', ''page2''] = sonata"
  by (simp add: newFile_def number_eval replace_pdf_ext_def matches_pdf_ext_def sonata_def)

lemma newPlaylist_eval: "newPlaylist 1700000000000 ''Practice'' = practice"
  by (simp add: newPlaylist_def number_eval practice_def)

lemma session_eval: "run init session = session_world"
  by (simp add: session_def session_world_def init_def mount_def
      PlaylistView_handleCreatePlaylist_def trim_eval handleCreatePlaylist_def
      newPlaylist_eval savePlaylist_def handleFileSelect_def sonata_file_def
      newFile_eval saveSheetMusic_def Let_def)
    (simp add: practice_def sonata_def)

lemma session_facts:
  "currentFile session_world = Some sonata"
  "find (\<lambda>p. pl_id p = ''pl-1700000000000'') (playlists session_world) = Some practice"
  "distinct (itemIds practice)"
  "no_duplicate_members session_world"
  by (simp_all add: session_world_def practice_def no_duplicate_members_def)

lemma member_world_eval:
  "fst (handleAddToPlaylist None ''pl-1700000000000'' session_world) = member_world"
  by (simp add: add_committed [OF session_facts(1) session_facts(2)] practice_def)
    (simp add: member_world_def session_world_def practice_def practice_sonata_def sonata_def)

lemma run_append: "run w (as @ bs) = run (run w as) bs"
  by (induction as arbitrary: w) simp_all

lemma member_world_reached:
  "run init (session @ [AddClick None ''pl-1700000000000'']) = member_world"
  by (simp add: run_append session_eval member_world_eval)


subsection \<open>Strings\<close>

lemma trim_empty_iff: "trim s = [] \<longleftrightarrow> list_all is_space s"
proof
  assume "trim s = []"
  then have "dropWhile is_space (rev (dropWhile is_space s)) = []"
    by (simp add: trim_def)
  then have all: "\<forall>c \<in> set (dropWhile is_space s). is_space c"
    by (simp add: dropWhile_eq_Nil_conv)
  have "dropWhile is_space s = []"
  proof (cases "dropWhile is_space s")
    case Nil
    then show ?thesis .
  next
    case (Cons c cs)
    then have "\<not> is_space c" by (metis hd_dropWhile list.sel(1) list.distinct(1))
    with all Cons show ?thesis by simp
  qed
  then show "list_all is_space s"
    by (simp add: dropWhile_eq_Nil_conv list_all_iff)
next
  assume "list_all is_space s"
  then have "dropWhile is_space s = []"
    by (simp add: dropWhile_eq_Nil_conv list_all_iff)
  then show "trim s = []" by (simp add: trim_def del: dropWhile_eq_Nil_conv)
qed

lemma replace_pdf_ext_strips: "matches_pdf_ext ext \<Longrightarrow> replace_pdf_ext (base @ ext) = base"
proof -
  assume m: "matches_pdf_ext ext"
  then have "length ext = 4"
    by (auto simp: matches_pdf_ext_def split: list.splits)
  with m show ?thesis by (simp add: replace_pdf_ext_def)
qed

lemma sonata_pdf_passes: "endsWith (toLowerCase ''Sonata.pdf'') ''.pdf''"
  by (simp add: endsWith_def toLowerCase_def lower_char_def upper_chars_def lower_chars_def)

lemma distinct_map_iff:
  "(\<And>x y. f x = f y \<longleftrightarrow> g x = g y) \<Longrightarrow> distinct (map f xs) \<longleftrightarrow> distinct (map g xs)"
proof (induction xs)
  case Nil
  then show ?case by simp
next
  case (Cons a xs)
  have "f a \<in> f ` set xs \<longleftrightarrow> g a \<in> g ` set xs"
    using Cons.prems by (auto simp: image_iff)
  with Cons show ?case by simp
qed

lemma playlist_id_eq: "pl_id (newPlaylist now1 n1) = pl_id (newPlaylist now2 n2) \<longleftrightarrow> now1 = now2"
  by (auto simp: newPlaylist_def dest: number_toString_inj)

lemma file_id_eq:
  "sm_id (newFile now1 rnd1 f1 pg1) = sm_id (newFile now2 rnd2 f2 pg2) \<longleftrightarrow>
   now1 = now2 \<and> rnd1 = rnd2"
  by (auto simp: newFile_def dest: number_dash_inj)


subsection \<open>Adding and removing members\<close>

lemma count_list_append: "count_list (xs @ ys) x = count_list xs x + count_list ys x"
  by (induction xs) auto

lemma count_list_absent: "x \<notin> set xs \<Longrightarrow> count_list xs x = 0"
  by (induction xs) auto

lemma count_list_distinct: "distinct xs \<Longrightarrow> x \<in> set xs \<Longrightarrow> count_list xs x = 1"
  by (induction xs) (auto simp: count_list_absent)

lemma second_add:
  assumes cf: "currentFile w = Some cf"
    and p: "find (\<lambda>p. pl_id p = pid) (playlists w) = Some p"
    and d: "distinct (itemIds p)"
  shows "\<exists>p1. find (\<lambda>p. pl_id p = pid) (playlists (fst (handleAddToPlaylist None pid w))) = Some p1
            \<and> currentFile (fst (handleAddToPlaylist None pid w)) = Some cf
            \<and> sm_id cf \<in> set (itemIds p1) \<and> count_list (itemIds p1) (sm_id cf) = 1"
proof (cases "sm_id cf \<in> set (itemIds p)")
  case True
  with cf p d show ?thesis
    by (simp add: add_already count_list_distinct)
next
  case False
  from p have id: "pl_id (p\<lparr>itemIds := itemIds p @ [sm_id cf]\<rparr>) = pid"
    using find_Some_id [of pid "playlists w" p] by simp
  from False cf show ?thesis
    by (simp add: add_committed [OF cf p False] find_replace_same [OF p id]
        count_list_append count_list_absent)
qed

lemma unchanged_filter: "fid \<notin> set (itemIds p) \<Longrightarrow> p\<lparr>itemIds := filter (\<lambda>i. i \<noteq> fid) (itemIds p)\<rparr> = p"
proof -
  assume "fid \<notin> set (itemIds p)"
  then have "filter (\<lambda>i. i \<noteq> fid) (itemIds p) = itemIds p"
    by (simp add: filter_id_conv) blast
  then show ?thesis by simp
qed

lemma replace_by_itself_lookup:
  assumes "find (\<lambda>x. pl_id x = pid) pls = Some p"
  shows "find (\<lambda>x. pl_id x = q) (map (\<lambda>pl. if pl_id pl = pid then p else pl) pls) =
         find (\<lambda>x. pl_id x = q) pls"
proof (cases "q = pid")
  case True
  from find_Some_id [OF assms] have "pl_id p = pid" by blast
  from find_replace_same [OF assms this] assms True show ?thesis by simp
next
  case False
  from find_Some_id [OF assms] have "pl_id p = pid" by blast
  from find_replace_other [OF False this] show ?thesis .
qed

lemma replace_by_itself_distinct:
  "distinct (map pl_id pls) \<Longrightarrow> p \<in> set pls \<Longrightarrow>
   map (\<lambda>pl. if pl_id pl = pl_id p then p else pl) pls = pls"
proof (induction pls)
  case Nil
  then show ?case by simp
next
  case (Cons a pls)
  have fresh: "map (\<lambda>pl. if pl_id pl = i then u else pl) xs = xs" if "i \<notin> pl_id ` set xs"
    for i u xs
    using that by (induction xs) auto
  show ?case
  proof (cases "p = a")
    case True
    from Cons.prems(1) True have "pl_id p \<notin> pl_id ` set pls" by simp
    then have "map (\<lambda>pl. if pl_id pl = pl_id p then p else pl) pls = pls" by (rule fresh)
    with True show ?thesis by simp
  next
    case False
    with Cons.prems have "p \<in> set pls" "pl_id a \<noteq> pl_id p" by force+
    with Cons show ?thesis by simp
  qed
qed

lemma replace_twice:
  "pl_id u = pid \<Longrightarrow>
   map (\<lambda>pl. if pl_id pl = pid then u else pl) (map (\<lambda>pl. if pl_id pl = pid then u else pl) pls) =
   map (\<lambda>pl. if pl_id pl = pid then u else pl) pls"
  by (induction pls) auto

lemma remove_absent_state:
  assumes p: "find (\<lambda>x. pl_id x = pid) (playlists w) = Some p"
    and absent: "fid \<notin> set (itemIds p)"
  shows "fst (handleRemoveFromPlaylist fault pid fid w) = w \<or>
         fst (handleRemoveFromPlaylist fault pid fid w) =
           w\<lparr>db_playlists := store_put pid p (db_playlists w),
             playlists := map (\<lambda>pl. if pl_id pl = pid then p else pl) (playlists w)\<rparr>"
proof (cases fault)
  case None
  then show ?thesis
    by (simp add: remove_committed [OF p] unchanged_filter [OF absent])
next
  case (Some e)
  then show ?thesis by (simp add: remove_rejected [OF p])
qed

lemma remove_twice:
  "fst (handleRemoveFromPlaylist fault pid fid (fst (handleRemoveFromPlaylist None pid fid w))) =
   fst (handleRemoveFromPlaylist None pid fid w)"
proof (cases "find (\<lambda>x. pl_id x = pid) (playlists w)")
  case None
  then show ?thesis by (simp add: remove_no_playlist)
next
  case (Some p)
  let ?u = "p\<lparr>itemIds := filter (\<lambda>i. i \<noteq> fid) (itemIds p)\<rparr>"
  let ?w1 = "w\<lparr>db_playlists := store_put pid ?u (db_playlists w),
               playlists := map (\<lambda>pl. if pl_id pl = pid then ?u else pl) (playlists w)\<rparr>"
  from find_Some_id [OF Some] have id: "pl_id ?u = pid" by simp
  have w1: "fst (handleRemoveFromPlaylist None pid fid w) = ?w1"
    by (simp add: remove_committed [OF Some])
  have found: "find (\<lambda>x. pl_id x = pid) (playlists ?w1) = Some ?u"
    using find_replace_same [OF Some id] by simp
  have same: "?u\<lparr>itemIds := filter (\<lambda>i. i \<noteq> fid) (itemIds ?u)\<rparr> = ?u"
    by simp
  show ?thesis
  proof (cases fault)
    case None
    show ?thesis
      unfolding w1 None
      by (simp add: remove_committed [OF found] store_put_idem replace_twice [OF id])
  next
    case (Some e)
    show ?thesis
      unfolding w1 Some by (simp add: remove_rejected [OF found])
  qed
qed

lemma replace_by_itself_iff:
  "map (\<lambda>pl. if pl_id pl = pid then p else pl) pls = pls \<longleftrightarrow>
   (\<forall>q \<in> set pls. pl_id q = pid \<longrightarrow> q = p)"
  by (induction pls) auto

lemma store_put_same_iff:
  "key_ordered st \<Longrightarrow> store_put k v st = st \<longleftrightarrow> (k, v) \<in> set st"
proof
  assume "store_put k v st = st"
  with store_put_mem [of k v st] show "(k, v) \<in> set st" by simp
next
  assume "key_ordered st" "(k, v) \<in> set st"
  then show "store_put k v st = st" by (rule store_put_same)
qed

lemma world_eq_iff:
  "w\<lparr>db_playlists := st, playlists := pls\<rparr> = w \<longleftrightarrow> st = db_playlists w \<and> pls = playlists w"
  by (cases w) auto

lemma remove_absent_exact:
  assumes p: "find (\<lambda>x. pl_id x = pid) (playlists w) = Some p"
    and absent: "fid \<notin> set (itemIds p)"
    and ord: "key_ordered (db_playlists w)"
  shows "fst (handleRemoveFromPlaylist None pid fid w) = w \<longleftrightarrow>
         (\<forall>q \<in> set (playlists w). pl_id q = pid \<longrightarrow> q = p) \<and> (pid, p) \<in> set (db_playlists w)"
proof -
  have "fst (handleRemoveFromPlaylist None pid fid w) =
      w\<lparr>db_playlists := store_put pid p (db_playlists w),
        playlists := map (\<lambda>pl. if pl_id pl = pid then p else pl) (playlists w)\<rparr>"
    by (simp add: remove_committed [OF p] unchanged_filter [OF absent])
  then show ?thesis
    using store_put_same_iff [OF ord, of pid p] replace_by_itself_iff [of pid p "playlists w"]
    by (auto simp: world_eq_iff)
qed

lemma reload_reads_store:
  "fst (reload None None w) =
     \<lparr>cur_view = PlaylistsView, currentFile = None, allMusic = map snd (db_sheetMusic w),
      playlists = map snd (db_playlists w), isModalOpen = False, isLoading = False,
      db_sheetMusic = db_sheetMusic w, db_playlists = db_playlists w\<rparr>"
  by (simp add: reload_def loadData_def mount_def getAllSheetMusic_def getAllPlaylists_def
      store_getAll_def)

lemma import_committed:
  "str_includes (file_type f) ''pdf'' \<or> endsWith (toLowerCase (file_name f)) ''.pdf'' \<Longrightarrow>
   handleFileSelect (Some f) (Inr pgs) now rnd None w =
     (w\<lparr>isLoading := False,
        db_sheetMusic := store_put (sm_id (newFile now rnd (file_name f) pgs))
                           (newFile now rnd (file_name f) pgs) (db_sheetMusic w),
        allMusic := allMusic w @ [newFile now rnd (file_name f) pgs],
        currentFile := Some (newFile now rnd (file_name f) pgs),
        cur_view := ViewerView\<rparr>, Silent)"
  by (auto simp: handleFileSelect_def saveSheetMusic_def Let_def)


subsection \<open>The lookup built by hydration\<close>

lemma find_app:
  "find P (xs @ ys) = (case find P xs of None \<Rightarrow> find P ys | Some x \<Rightarrow> Some x)"
  by (induction xs) auto

lemma find_Some_mem: "find P xs = Some x \<Longrightarrow> x \<in> set xs \<and> P x"
  by (induction xs) (auto split: if_splits)

lemma fold_lookup:
  "fold (\<lambda>m mp. mp(sm_id m \<mapsto> m)) music mp0 i =
     (case find (\<lambda>m. sm_id m = i) (rev music) of None \<Rightarrow> mp0 i | Some m \<Rightarrow> Some m)"
proof (induction music arbitrary: mp0)
  case Nil
  then show ?case by simp
next
  case (Cons a music)
  have "fold (\<lambda>m mp. mp(sm_id m \<mapsto> m)) (a # music) mp0 i =
      (case find (\<lambda>m. sm_id m = i) (rev music) of
         None \<Rightarrow> (mp0(sm_id a \<mapsto> a)) i
       | Some m \<Rightarrow> Some m)"
    by (simp only: fold_simps Cons.IH)
  also have "\<dots> =
      (case find (\<lambda>m. sm_id m = i) (rev (a # music)) of None \<Rightarrow> mp0 i | Some m \<Rightarrow> Some m)"
    by (simp add: find_app split: option.splits)
  finally show ?case .
qed

lemma musicMap_find: "musicMap music i = find (\<lambda>m. sm_id m = i) (rev music)"
  by (simp add: musicMap_def fold_lookup split: option.splits)

lemma musicMap_None: "musicMap music i = None \<longleftrightarrow> i \<notin> sm_id ` set music"
  by (auto simp: musicMap_find find_None_iff)

lemma musicMap_Some: "musicMap music i = Some m \<Longrightarrow> m \<in> set music \<and> sm_id m = i"
  using find_Some_mem [of "\<lambda>m. sm_id m = i" "rev music" m] by (simp add: musicMap_find)

lemma find_rev_distinct:
  "distinct (map sm_id music) \<Longrightarrow>
   find (\<lambda>m. sm_id m = i) (rev music) = find (\<lambda>m. sm_id m = i) music"
proof (induction music)
  case Nil
  then show ?case by simp
next
  case (Cons a music)
  then have IH: "find (\<lambda>m. sm_id m = i) (rev music) = find (\<lambda>m. sm_id m = i) music"
    and fresh: "sm_id a \<notin> sm_id ` set music"
    by simp_all
  show ?case
  proof (cases "sm_id a = i")
    case True
    with fresh have "\<forall>x \<in> set music. sm_id x \<noteq> i"
      by blast
    then have "find (\<lambda>m. sm_id m = i) music = None"
      by (simp add: find_None_iff)
    with IH True show ?thesis by (simp add: find_app)
  next
    case False
    with IH show ?thesis by (simp add: find_app split: option.splits)
  qed
qed

lemma map_the_filter_resolve:
  "map the (filter (\<lambda>item. item \<noteq> None) (map lookup ids)) = resolve lookup ids"
  by (induction ids) (auto split: option.splits)

lemma resolve_ids:
  "map sm_id (resolve (musicMap music) ids) = filter (\<lambda>i. i \<in> sm_id ` set music) ids"
proof (induction ids)
  case Nil
  then show ?case by simp
next
  case (Cons i ids)
  show ?case
  proof (cases "musicMap music i")
    case None
    with Cons musicMap_None [of music i] show ?thesis by simp
  next
    case (Some m)
    with musicMap_Some [OF Some] Cons show ?thesis by auto
  qed
qed


section \<open>The claims\<close>

subsection \<open>C1: membership lists never hold an id twice\<close>

text \<open>
  C1. Whatever the user does, starting from the empty application or from any state whose
  membership lists are free of duplicates, no playlist (cached or stored) lists an item
  id twice; store faults and clock readings are arbitrary. When an item is open and the
  playlist exists, after one committed \<^verbatim>\<open>handleAddToPlaylist\<close> the playlist lists
  the item's id exactly once, and a second call for the same playlist returns the state
  unchanged with the "is already in this playlist" alert, which is never the "Added" alert.
\<close>

theorem addMember_never_duplicates:
  "no_duplicate_members (run init acts) \<and>
   (no_duplicate_members w \<longrightarrow> no_duplicate_members (run w acts)) \<and>
   (currentFile w = Some cf \<and> find (\<lambda>p. pl_id p = pid) (playlists w) = Some p \<and>
    distinct (itemIds p) \<longrightarrow>
      (\<exists>p1. find (\<lambda>p. pl_id p = pid) (playlists (fst (handleAddToPlaylist None pid w))) = Some p1 \<and>
            count_list (itemIds p1) (sm_id cf) = 1) \<and>
      handleAddToPlaylist fault pid (fst (handleAddToPlaylist None pid w)) =
        (fst (handleAddToPlaylist None pid w), Alert (msg_already cf)) \<and>
      msg_already cf \<noteq> msg_added cf p)"
proof (intro conjI impI)
  show "no_duplicate_members (run init acts)"
    by (rule run_no_dup [OF init_no_dup])
  show "no_duplicate_members (run w acts)" if "no_duplicate_members w"
    using that by (rule run_no_dup)
  show "msg_already cf \<noteq> msg_added cf p"
    by (rule msg_differ)
next
  assume h: "currentFile w = Some cf \<and> find (\<lambda>p. pl_id p = pid) (playlists w) = Some p \<and>
    distinct (itemIds p)"
  then obtain p1 where
    p1: "find (\<lambda>p. pl_id p = pid) (playlists (fst (handleAddToPlaylist None pid w))) = Some p1"
    and cf1: "currentFile (fst (handleAddToPlaylist None pid w)) = Some cf"
    and mem: "sm_id cf \<in> set (itemIds p1)"
    and cnt: "count_list (itemIds p1) (sm_id cf) = 1"
    using second_add [of w cf pid p] by blast
  from p1 cnt
  show "\<exists>p1. find (\<lambda>p. pl_id p = pid) (playlists (fst (handleAddToPlaylist None pid w))) = Some p1 \<and>
            count_list (itemIds p1) (sm_id cf) = 1"
    by blast
  show "handleAddToPlaylist fault pid (fst (handleAddToPlaylist None pid w)) =
        (fst (handleAddToPlaylist None pid w), Alert (msg_already cf))"
    by (rule add_already [OF cf1 p1 mem])
qed

theorem addMember_never_duplicates_witness:
  "run init session = session_world \<and>
   no_duplicate_members session_world \<and>
   currentFile session_world = Some sonata \<and>
   find (\<lambda>p. pl_id p = ''pl-1700000000000'') (playlists session_world) = Some practice \<and>
   distinct (itemIds practice) \<and>
   no_duplicate_members
     (run session_world [AddClick None ''pl-1700000000000'', AddClick None ''pl-1700000000000'']) \<and>
   handleAddToPlaylist None ''pl-1700000000000''
       (fst (handleAddToPlaylist None ''pl-1700000000000'' session_world)) =
     (fst (handleAddToPlaylist None ''pl-1700000000000'' session_world),
      Alert (msg_already sonata))"
  using addMember_never_duplicates
    [of "[AddClick None ''pl-1700000000000'', AddClick None ''pl-1700000000000'']"
      session_world sonata "''pl-1700000000000''" practice None]
    session_facts session_eval
  by blast

subsection \<open>C2: generated ids and the readings they are built from\<close>

text \<open>
  C2, as amended. The id of a new playlist is a one-to-one function of the clock reading, and
  the id of a new item is a one-to-one function of the clock reading and the text of the
  random number: two playlists get the same id exactly when they are created at the same
  reading, two items exactly when both readings coincide. The ids of any list of created
  playlists (or items) are therefore pairwise different exactly when the readings are.
\<close>

theorem ids_coincide_only_with_equal_readings:
  "(pl_id (newPlaylist now1 n1) = pl_id (newPlaylist now2 n2) \<longleftrightarrow> now1 = now2) \<and>
   (sm_id (newFile now1 rnd1 f1 pg1) = sm_id (newFile now2 rnd2 f2 pg2) \<longleftrightarrow>
      now1 = now2 \<and> rnd1 = rnd2) \<and>
   (distinct (map (\<lambda>(now, nm). pl_id (newPlaylist now nm)) creations) \<longleftrightarrow>
      distinct (map fst creations)) \<and>
   (distinct (map (\<lambda>(now, rnd, fname, pgs). sm_id (newFile now rnd fname pgs)) imports) \<longleftrightarrow>
      distinct (map (\<lambda>(now, rnd, fname, pgs). (now, rnd)) imports))"
proof (intro conjI)
  show "pl_id (newPlaylist now1 n1) = pl_id (newPlaylist now2 n2) \<longleftrightarrow> now1 = now2"
    by (rule playlist_id_eq)
  show "sm_id (newFile now1 rnd1 f1 pg1) = sm_id (newFile now2 rnd2 f2 pg2) \<longleftrightarrow>
      now1 = now2 \<and> rnd1 = rnd2"
    by (rule file_id_eq)
  show "distinct (map (\<lambda>(now, nm). pl_id (newPlaylist now nm)) creations) \<longleftrightarrow>
      distinct (map fst creations)"
    by (rule distinct_map_iff) (simp add: playlist_id_eq split_beta)
  show "distinct (map (\<lambda>(now, rnd, fname, pgs). sm_id (newFile now rnd fname pgs)) imports) \<longleftrightarrow>
      distinct (map (\<lambda>(now, rnd, fname, pgs). (now, rnd)) imports)"
    by (rule distinct_map_iff) (simp add: file_id_eq split_beta)
qed

theorem ids_coincide_only_with_equal_readings_witness:
  "pl_id (newPlaylist 1700000000000 ''Scales'') \<noteq> pl_id (newPlaylist 1700000000001 ''Scales'') \<and>
   sm_id (newFile 1700000000001 ''0.5'' ''Sonata.pdf'' [''page1''])
     \<noteq> sm_id (newFile 1700000000001 ''0.25'' ''Sonata.pdf'' [''page1''])"
  using ids_coincide_only_with_equal_readings
      [of 1700000000000 "''Scales''" 1700000000001 "''Scales''" "''0.5''" "''Sonata.pdf''"
        "[''page1'']" "''0.5''" "''Sonata.pdf''" "[''page1'']"]
    ids_coincide_only_with_equal_readings
      [of 1700000000001 "''Scales''" 1700000000001 "''Scales''" "''0.5''" "''Sonata.pdf''"
        "[''page1'']" "''0.25''" "''Sonata.pdf''" "[''page1'']"]
  by simp

text \<open>
  The claim as first stated fails: two playlists created at the same clock reading are both
  in the collection, with different names and one id.
\<close>

theorem same_millisecond_playlists_share_id:
  "map pl_id (playlists (run init [CreateClick 1700000000000 None ''Scales'',
                                   CreateClick 1700000000000 None ''Etudes''])) =
     [''pl-1700000000000'', ''pl-1700000000000''] \<and>
   map pl_name (playlists (run init [CreateClick 1700000000000 None ''Scales'',
                                     CreateClick 1700000000000 None ''Etudes''])) =
     [''Scales'', ''Etudes''] \<and>
   \<not> distinct (map pl_id (playlists (run init [CreateClick 1700000000000 None ''Scales'',
                                               CreateClick 1700000000000 None ''Etudes''])))"
  by (simp add: init_def mount_def PlaylistView_handleCreatePlaylist_def trim_def is_space_def
      handleCreatePlaylist_def newPlaylist_def number_eval savePlaylist_def Let_def)

subsection \<open>C3: a failed conversion changes nothing\<close>

text \<open>
  C3. When the conversion throws, the library, the playlists, both object stores, the open
  item and the screen are what they were, whatever file was chosen; for a file that passes
  the PDF check the only change is that the loading flag is cleared, and the user is shown
  the reason.
\<close>

theorem conversion_failure_changes_nothing:
  "allMusic (fst (handleFileSelect fl (Inl msg) now rnd fault w)) = allMusic w \<and>
   playlists (fst (handleFileSelect fl (Inl msg) now rnd fault w)) = playlists w \<and>
   db_sheetMusic (fst (handleFileSelect fl (Inl msg) now rnd fault w)) = db_sheetMusic w \<and>
   db_playlists (fst (handleFileSelect fl (Inl msg) now rnd fault w)) = db_playlists w \<and>
   currentFile (fst (handleFileSelect fl (Inl msg) now rnd fault w)) = currentFile w \<and>
   cur_view (fst (handleFileSelect fl (Inl msg) now rnd fault w)) = cur_view w \<and>
   (str_includes (file_type f) ''pdf'' \<or> endsWith (toLowerCase (file_name f)) ''.pdf'' \<longrightarrow>
      handleFileSelect (Some f) (Inl msg) now rnd fault w =
        (w\<lparr>isLoading := False\<rparr>,
         Alert (''Failed to process PDF. It might be corrupted or invalid. Error: '' @ msg)))"
  by (simp add: handleFileSelect_def Let_def split: option.splits)

theorem conversion_failure_changes_nothing_witness:
  "str_includes (file_type sonata_file) ''pdf'' \<and>
   handleFileSelect (Some sonata_file) (Inl ''Invalid PDF structure.'') 1700000000002 ''0.75'' None
       session_world =
     (session_world\<lparr>isLoading := False\<rparr>,
      Alert ''Failed to process PDF. It might be corrupted or invalid. Error: Invalid PDF structure.'') \<and>
   allMusic (fst (handleFileSelect (Some sonata_file) (Inl ''Invalid PDF structure.'')
                    1700000000002 ''0.75'' None session_world)) = [sonata] \<and>
   db_sheetMusic (fst (handleFileSelect (Some sonata_file) (Inl ''Invalid PDF structure.'')
                    1700000000002 ''0.75'' None session_world)) =
     [(''file-1700000000001-0.5'', sonata)]"
proof -
  have h: "str_includes (file_type sonata_file) ''pdf''"
    by (simp add: sonata_file_def)
  from conversion_failure_changes_nothing
    [of "Some sonata_file" "''Invalid PDF structure.''" 1700000000002 "''0.75''" None
      session_world sonata_file] h
  show ?thesis by (simp add: session_world_def)
qed

subsection \<open>C4: hydration maps ids through a lookup and drops the unresolved\<close>

text \<open>
  C4. \<open>hydratedPlaylists\<close> is, on every input, the function that keeps each playlist's
  id and name and takes its \<open>itemIds\<close> in order through a lookup from id to item, dropping
  the ids the lookup does not resolve. The lookup resolves exactly the ids of the given
  items, each to an item of the list with that id (the last such item; with unique ids,
  the only one), so the ids of the hydrated items are the resolvable ids in their original
  order. With no playlists the result is empty; with no items every playlist comes out
  with no items. The function reads its arguments and returns a new value.
\<close>

theorem hydrate_is_lookup_and_drop:
  "hydratedPlaylists pls music = hydrate_spec (musicMap music) pls \<and>
   (musicMap music i = None \<longleftrightarrow> i \<notin> sm_id ` set music) \<and>
   (musicMap music i = Some m \<longrightarrow> m \<in> set music \<and> sm_id m = i) \<and>
   (distinct (map sm_id music) \<longrightarrow> musicMap music i = find (\<lambda>m. sm_id m = i) music) \<and>
   musicMap music i = find (\<lambda>m. sm_id m = i) (rev music) \<and>
   map hp_id (hydratedPlaylists pls music) = map pl_id pls \<and>
   map hp_name (hydratedPlaylists pls music) = map pl_name pls \<and>
   map (\<lambda>h. map sm_id (hp_items h)) (hydratedPlaylists pls music) =
     map (\<lambda>pl. filter (\<lambda>i. i \<in> sm_id ` set music) (itemIds pl)) pls \<and>
   hydratedPlaylists [] music = [] \<and>
   hydratedPlaylists pls [] =
     map (\<lambda>pl. \<lparr>hp_id = pl_id pl, hp_name = pl_name pl, hp_items = []\<rparr>) pls"
proof (intro conjI impI)
  show eq: "hydratedPlaylists pls music = hydrate_spec (musicMap music) pls"
    unfolding hydratedPlaylists_def hydrate_spec_def Let_def map_the_filter_resolve
    by (rule refl)
  show "musicMap music i = None \<longleftrightarrow> i \<notin> sm_id ` set music"
    by (rule musicMap_None)
  show "m \<in> set music" "sm_id m = i" if "musicMap music i = Some m"
    using musicMap_Some [OF that] by simp_all
  show "musicMap music i = find (\<lambda>m. sm_id m = i) music" if "distinct (map sm_id music)"
    using that by (simp add: musicMap_find find_rev_distinct)
  show "musicMap music i = find (\<lambda>m. sm_id m = i) (rev music)"
    by (rule musicMap_find)
  show "map hp_id (hydratedPlaylists pls music) = map pl_id pls"
    by (simp add: hydratedPlaylists_def Let_def comp_def)
  show "map hp_name (hydratedPlaylists pls music) = map pl_name pls"
    by (simp add: hydratedPlaylists_def Let_def comp_def)
  show "map (\<lambda>h. map sm_id (hp_items h)) (hydratedPlaylists pls music) =
     map (\<lambda>pl. filter (\<lambda>i. i \<in> sm_id ` set music) (itemIds pl)) pls"
    by (simp add: eq hydrate_spec_def comp_def resolve_ids)
  show "hydratedPlaylists [] music = []"
    by (simp add: hydratedPlaylists_def)
  show "hydratedPlaylists pls [] =
     map (\<lambda>pl. \<lparr>hp_id = pl_id pl, hp_name = pl_name pl, hp_items = []\<rparr>) pls"
    by (simp add: hydratedPlaylists_def musicMap_def)
qed

theorem hydrate_is_lookup_and_drop_witness:
  "distinct (map sm_id [sonata]) \<and>
   musicMap [sonata] ''file-1700000000001-0.5'' = Some sonata \<and>
   musicMap [sonata] ''file-0'' = None \<and>
   hydratedPlaylists [practice_sonata\<lparr>itemIds := [''file-0'', ''file-1700000000001-0.5'']\<rparr>] [sonata] =
     [\<lparr>hp_id = ''pl-1700000000000'', hp_name = ''Practice'', hp_items = [sonata]\<rparr>]"
proof -
  note t = hydrate_is_lookup_and_drop
    [of "[practice_sonata\<lparr>itemIds := [''file-0'', ''file-1700000000001-0.5'']\<rparr>]" "[sonata]"
      "''file-0''" sonata]
  note u = hydrate_is_lookup_and_drop
    [of "[]" "[sonata]" "''file-1700000000001-0.5''" sonata]
  have d: "distinct (map sm_id [sonata])" by simp
  have n: "''file-0'' \<notin> sm_id ` set [sonata]" by (simp add: sonata_def)
  have s: "find (\<lambda>m. sm_id m = ''file-1700000000001-0.5'') [sonata] = Some sonata"
    by (simp add: sonata_def)
  from t [THEN conjunct2, THEN conjunct1] n
  have 1: "musicMap [sonata] ''file-0'' = None" by (rule iffD2)
  from u [THEN conjunct2, THEN conjunct2, THEN conjunct2, THEN conjunct1, rule_format, OF d] s
  have 2: "musicMap [sonata] ''file-1700000000001-0.5'' = Some sonata" by (rule trans)
  have 3: "hydrate_spec (musicMap [sonata])
      [practice_sonata\<lparr>itemIds := [''file-0'', ''file-1700000000001-0.5'']\<rparr>] =
     [\<lparr>hp_id = ''pl-1700000000000'', hp_name = ''Practice'', hp_items = [sonata]\<rparr>]"
    by (simp add: hydrate_spec_def practice_sonata_def 1 2)
  from t [THEN conjunct1] 3
  have 4: "hydratedPlaylists [practice_sonata\<lparr>itemIds := [''file-0'', ''file-1700000000001-0.5'']\<rparr>] [sonata] =
     [\<lparr>hp_id = ''pl-1700000000000'', hp_name = ''Practice'', hp_items = [sonata]\<rparr>]"
    by (rule trans)
  from d 2 1 4 show ?thesis by (intro conjI)
qed

subsection \<open>C5: a blank name creates nothing\<close>

text \<open>
  C5. The trimmed name is empty exactly when the typed name consists of white space only
  (or is empty). For such a name the create action, which is the click handler of the
  playlist view and the only caller of the application's \<^verbatim>\<open>handleCreatePlaylist\<close>,
  returns the typed text, the state and the stores as they were, and shows nothing; three
  blanks and the empty name are instances.
\<close>

theorem blank_name_creates_nothing:
  "(trim raw = [] \<longleftrightarrow> list_all is_space raw) \<and>
   (list_all is_space raw \<longrightarrow>
      PlaylistView_handleCreatePlaylist now fault raw w = (raw, w, Silent) \<and>
      length (playlists (fst (snd (PlaylistView_handleCreatePlaylist now fault raw w)))) =
        length (playlists w) \<and>
      db_playlists (fst (snd (PlaylistView_handleCreatePlaylist now fault raw w))) =
        db_playlists w \<and>
      run w [CreateClick now fault raw] = w) \<and>
   PlaylistView_handleCreatePlaylist now fault ''   '' w = (''   '', w, Silent) \<and>
   PlaylistView_handleCreatePlaylist now fault [] w = ([], w, Silent)"
proof -
  have "PlaylistView_handleCreatePlaylist now fault s w = (s, w, Silent)"
    if "list_all is_space s" for s
    using that by (simp add: PlaylistView_handleCreatePlaylist_def trim_empty_iff)
  moreover have "list_all is_space ''   ''" "list_all is_space []"
    by (simp_all add: is_space_def)
  ultimately show ?thesis
    by (simp add: trim_empty_iff)
qed

theorem blank_name_creates_nothing_witness:
  "list_all is_space [CHR 0x09, CHR '' ''] \<and>
   PlaylistView_handleCreatePlaylist 1700000000003 None [CHR 0x09, CHR '' ''] session_world =
     ([CHR 0x09, CHR '' ''], session_world, Silent) \<and>
   length (playlists (fst (snd (PlaylistView_handleCreatePlaylist 1700000000003 None
                                  [CHR 0x09, CHR '' ''] session_world)))) = 1"
proof -
  have h: "list_all is_space [CHR 0x09, CHR '' '']"
    by (simp add: is_space_def)
  have n: "length (playlists session_world) = 1"
    by (simp add: session_world_def)
  from blank_name_creates_nothing [of "[CHR 0x09, CHR '' '']" 1700000000003 None session_world]
    h n
  show ?thesis by simp
qed

subsection \<open>C6: what an import builds\<close>

text \<open>
  C6, as amended. The item built from \<^verbatim>\<open>Sonata.pdf\<close> and two pages is named
  \<^verbatim>\<open>Sonata\<close> and has exactly those two pages in that order; in general a final
  \<^verbatim>\<open>.pdf\<close> in any case is cut off and the pages are kept as given. Two imports of
  the same file with the same pages both append an item to the library (nothing is merged
  by content), and the two ids differ whenever the clock readings or the random texts of
  the two calls differ.
\<close>

theorem import_strips_extension_keeps_pages_fresh_id:
  "sm_name (newFile now rnd ''Sonata.pdf'' [page1, page2]) = ''Sonata'' \<and>
   pages (newFile now rnd ''Sonata.pdf'' [page1, page2]) = [page1, page2] \<and>
   length (pages (newFile now rnd ''Sonata.pdf'' [page1, page2])) = 2 \<and>
   (matches_pdf_ext ext \<longrightarrow> sm_name (newFile now rnd (base @ ext) pgs) = base) \<and>
   pages (newFile now rnd fname pgs) = pgs \<and>
   (now1 \<noteq> now2 \<or> rnd1 \<noteq> rnd2 \<longrightarrow>
      sm_id (newFile now1 rnd1 fname pgs) \<noteq> sm_id (newFile now2 rnd2 fname pgs)) \<and>
   allMusic (run w
     [FileSelect (Some \<lparr>file_name = ''Sonata.pdf'', file_type = ty\<rparr>) (Inr [page1, page2])
        now1 rnd1 None,
      FileSelect (Some \<lparr>file_name = ''Sonata.pdf'', file_type = ty\<rparr>) (Inr [page1, page2])
        now2 rnd2 None]) =
     allMusic w @ [newFile now1 rnd1 ''Sonata.pdf'' [page1, page2],
                   newFile now2 rnd2 ''Sonata.pdf'' [page1, page2]]"
proof (intro conjI impI)
  show "sm_name (newFile now rnd ''Sonata.pdf'' [page1, page2]) = ''Sonata''"
    by (simp add: newFile_def replace_pdf_ext_def matches_pdf_ext_def)
  show "pages (newFile now rnd ''Sonata.pdf'' [page1, page2]) = [page1, page2]"
    by (simp add: newFile_def)
  show "length (pages (newFile now rnd ''Sonata.pdf'' [page1, page2])) = 2"
    by (simp add: newFile_def)
  show "sm_name (newFile now rnd (base @ ext) pgs) = base" if "matches_pdf_ext ext"
    using replace_pdf_ext_strips [OF that] by (simp add: newFile_def)
  show "pages (newFile now rnd fname pgs) = pgs"
    by (simp add: newFile_def)
  show "sm_id (newFile now1 rnd1 fname pgs) \<noteq> sm_id (newFile now2 rnd2 fname pgs)"
    if "now1 \<noteq> now2 \<or> rnd1 \<noteq> rnd2"
    using that by (simp only: file_id_eq) blast
  let ?f = "\<lparr>file_name = ''Sonata.pdf'', file_type = ty\<rparr>"
  have ok: "str_includes (file_type ?f) ''pdf'' \<or> endsWith (toLowerCase (file_name ?f)) ''.pdf''"
    using sonata_pdf_passes by simp
  show "allMusic (run w
     [FileSelect (Some ?f) (Inr [page1, page2]) now1 rnd1 None,
      FileSelect (Some ?f) (Inr [page1, page2]) now2 rnd2 None]) =
     allMusic w @ [newFile now1 rnd1 ''Sonata.pdf'' [page1, page2],
                   newFile now2 rnd2 ''Sonata.pdf'' [page1, page2]]"
    by (simp add: import_committed [OF ok])
qed

theorem import_strips_extension_keeps_pages_fresh_id_witness:
  "matches_pdf_ext ''.PDF'' \<and>
   sm_name (newFile 1700000000001 ''0.5'' (''Etude'' @ ''.PDF'') [''page1'']) = ''Etude'' \<and>
   ''0.5'' \<noteq> ''0.25'' \<and>
   sm_id (newFile 1700000000001 ''0.5'' ''Sonata.pdf'' [''page1'', ''page2''])
     \<noteq> sm_id (newFile 1700000000001 ''0.25'' ''Sonata.pdf'' [''page1'', ''page2''])"
proof -
  have m: "matches_pdf_ext ''.PDF''" by (simp add: matches_pdf_ext_def)
  have r: "''0.5'' \<noteq> ''0.25''" by simp
  note t = import_strips_extension_keeps_pages_fresh_id
    [of 1700000000001 "''0.5''" "''p''" "''q''" "''.PDF''" "''Etude''" "[''page1'']"
      "''Sonata.pdf''" 1700000000001 1700000000001 "''0.5''" "''0.25''"]
  from t m have 1: "sm_name (newFile 1700000000001 ''0.5'' (''Etude'' @ ''.PDF'') [''page1'']) = ''Etude''"
    by blast
  note u = import_strips_extension_keeps_pages_fresh_id
    [of 1700000000001 "''0.5''" "''p''" "''q''" "''.PDF''" "''Etude''" "[''page1'', ''page2'']"
      "''Sonata.pdf''" 1700000000001 1700000000001 "''0.5''" "''0.25''"]
  from u r have 2: "sm_id (newFile 1700000000001 ''0.5'' ''Sonata.pdf'' [''page1'', ''page2''])
     \<noteq> sm_id (newFile 1700000000001 ''0.25'' ''Sonata.pdf'' [''page1'', ''page2''])"
    by blast
  from m 1 r 2 show ?thesis by (intro conjI)
qed

text \<open>
  The claim as first stated fails: two imports of the same file that read the same clock
  value and the same random number leave two items with one id in the library, and one
  record in the store.
\<close>

theorem same_readings_imports_share_id:
  "map sm_id (allMusic (run init
     [FileSelect (Some sonata_file) (Inr [''page1'', ''page2'']) 1700000000001 ''0.5'' None,
      FileSelect (Some sonata_file) (Inr [''page1'', ''page2'']) 1700000000001 ''0.5'' None])) =
     [''file-1700000000001-0.5'', ''file-1700000000001-0.5''] \<and>
   map fst (db_sheetMusic (run init
     [FileSelect (Some sonata_file) (Inr [''page1'', ''page2'']) 1700000000001 ''0.5'' None,
      FileSelect (Some sonata_file) (Inr [''page1'', ''page2'']) 1700000000001 ''0.5'' None])) =
     [''file-1700000000001-0.5'']"
proof -
  have ok: "str_includes (file_type sonata_file) ''pdf'' \<or>
      endsWith (toLowerCase (file_name sonata_file)) ''.pdf''"
    by (simp add: sonata_file_def)
  have nm: "file_name sonata_file = ''Sonata.pdf''"
    by (simp add: sonata_file_def)
  show ?thesis
    by (simp add: import_committed [OF ok] nm newFile_eval) (simp add: sonata_def init_def mount_def)
qed

subsection \<open>C7: removing a member\<close>

text \<open>
  C7, as amended. Removing from a playlist that does not exist changes nothing. Removing an
  id the playlist does not list leaves the playlist found under every id, the library and
  its store as they were; the record is written and the cache mapped all the same, so the
  cached list is unchanged when the cached playlist ids are distinct, and the whole state
  is unchanged exactly when every cached playlist with that id is the one found and the
  store (in key order, as it is in every state the application reaches) holds that record.
  A committed removal leaves the playlist, cached and stored, with its former ids minus
  every occurrence of the removed one, and doing it a second time changes nothing more.
\<close>

theorem removeMember_absent_noop_and_idempotent:
  "(find (\<lambda>x. pl_id x = pid) (playlists w) = None \<longrightarrow>
      handleRemoveFromPlaylist fault pid fid w = (w, Silent)) \<and>
   (find (\<lambda>x. pl_id x = pid) (playlists w) = Some p \<and> fid \<notin> set (itemIds p) \<longrightarrow>
      (\<forall>q. find (\<lambda>x. pl_id x = q) (playlists (fst (handleRemoveFromPlaylist fault pid fid w))) =
            find (\<lambda>x. pl_id x = q) (playlists w)) \<and>
      allMusic (fst (handleRemoveFromPlaylist fault pid fid w)) = allMusic w \<and>
      db_sheetMusic (fst (handleRemoveFromPlaylist fault pid fid w)) = db_sheetMusic w \<and>
      (distinct (map pl_id (playlists w)) \<longrightarrow>
         playlists (fst (handleRemoveFromPlaylist fault pid fid w)) = playlists w) \<and>
      (distinct (map pl_id (playlists w)) \<and> key_ordered (db_playlists w) \<and>
       (pid, p) \<in> set (db_playlists w) \<longrightarrow>
         fst (handleRemoveFromPlaylist fault pid fid w) = w)) \<and>
   (find (\<lambda>x. pl_id x = pid) (playlists w) = Some p \<longrightarrow>
      find (\<lambda>x. pl_id x = pid) (playlists (fst (handleRemoveFromPlaylist None pid fid w))) =
        Some (p\<lparr>itemIds := filter (\<lambda>i. i \<noteq> fid) (itemIds p)\<rparr>) \<and>
      (pid, p\<lparr>itemIds := filter (\<lambda>i. i \<noteq> fid) (itemIds p)\<rparr>) \<in>
        set (db_playlists (fst (handleRemoveFromPlaylist None pid fid w))) \<and>
      fid \<notin> set (filter (\<lambda>i. i \<noteq> fid) (itemIds p))) \<and>
   fst (handleRemoveFromPlaylist fault pid fid (fst (handleRemoveFromPlaylist None pid fid w))) =
     fst (handleRemoveFromPlaylist None pid fid w) \<and>
   key_ordered (db_playlists (run init acts)) \<and>
   (find (\<lambda>x. pl_id x = pid) (playlists w) = Some p \<and> fid \<notin> set (itemIds p) \<and>
    key_ordered (db_playlists w) \<longrightarrow>
      (fst (handleRemoveFromPlaylist None pid fid w) = w \<longleftrightarrow>
         (\<forall>q \<in> set (playlists w). pl_id q = pid \<longrightarrow> q = p) \<and>
         (pid, p) \<in> set (db_playlists w)))"
proof (intro conjI impI allI)
  show "key_ordered (db_playlists (run init acts))"
    by (rule run_key_ordered [OF init_key_ordered])
  show "fst (handleRemoveFromPlaylist None pid fid w) = w \<longleftrightarrow>
         (\<forall>q \<in> set (playlists w). pl_id q = pid \<longrightarrow> q = p) \<and>
         (pid, p) \<in> set (db_playlists w)"
    if "find (\<lambda>x. pl_id x = pid) (playlists w) = Some p \<and> fid \<notin> set (itemIds p) \<and>
      key_ordered (db_playlists w)"
    using that remove_absent_exact [of pid w p fid] by blast
  show "handleRemoveFromPlaylist fault pid fid w = (w, Silent)"
    if "find (\<lambda>x. pl_id x = pid) (playlists w) = None"
    using that by (rule remove_no_playlist)
  show "fst (handleRemoveFromPlaylist fault pid fid (fst (handleRemoveFromPlaylist None pid fid w))) =
     fst (handleRemoveFromPlaylist None pid fid w)"
    by (rule remove_twice)
next
  assume p: "find (\<lambda>x. pl_id x = pid) (playlists w) = Some p"
  from find_Some_id [OF p] have id: "pl_id (p\<lparr>itemIds := filter (\<lambda>i. i \<noteq> fid) (itemIds p)\<rparr>) = pid"
    by simp
  show "find (\<lambda>x. pl_id x = pid) (playlists (fst (handleRemoveFromPlaylist None pid fid w))) =
        Some (p\<lparr>itemIds := filter (\<lambda>i. i \<noteq> fid) (itemIds p)\<rparr>)"
    using find_replace_same [OF p id] by (simp add: remove_committed [OF p])
  show "(pid, p\<lparr>itemIds := filter (\<lambda>i. i \<noteq> fid) (itemIds p)\<rparr>) \<in>
        set (db_playlists (fst (handleRemoveFromPlaylist None pid fid w)))"
    by (simp add: remove_committed [OF p] store_put_mem)
  show "fid \<notin> set (filter (\<lambda>i. i \<noteq> fid) (itemIds p))"
    by simp
next
  fix q
  assume h: "find (\<lambda>x. pl_id x = pid) (playlists w) = Some p \<and> fid \<notin> set (itemIds p)"
  from h remove_absent_state [of pid w p fid fault] replace_by_itself_lookup [of pid "playlists w" p q]
  show "find (\<lambda>x. pl_id x = q) (playlists (fst (handleRemoveFromPlaylist fault pid fid w))) =
        find (\<lambda>x. pl_id x = q) (playlists w)"
    by auto
next
  assume h: "find (\<lambda>x. pl_id x = pid) (playlists w) = Some p \<and> fid \<notin> set (itemIds p)"
  from h remove_absent_state [of pid w p fid fault]
  show "allMusic (fst (handleRemoveFromPlaylist fault pid fid w)) = allMusic w"
    by auto
  from h remove_absent_state [of pid w p fid fault]
  show "db_sheetMusic (fst (handleRemoveFromPlaylist fault pid fid w)) = db_sheetMusic w"
    by auto
next
  assume h: "find (\<lambda>x. pl_id x = pid) (playlists w) = Some p \<and> fid \<notin> set (itemIds p)"
    and d: "distinct (map pl_id (playlists w))"
  from h find_Some_id [of pid "playlists w" p] have "pl_id p = pid" "p \<in> set (playlists w)"
    by blast+
  with replace_by_itself_distinct [OF d, of p]
  have "map (\<lambda>pl. if pl_id pl = pid then p else pl) (playlists w) = playlists w" by simp
  with h remove_absent_state [of pid w p fid fault]
  show "playlists (fst (handleRemoveFromPlaylist fault pid fid w)) = playlists w"
    by auto
next
  assume h: "find (\<lambda>x. pl_id x = pid) (playlists w) = Some p \<and> fid \<notin> set (itemIds p)"
    and d: "distinct (map pl_id (playlists w)) \<and> key_ordered (db_playlists w) \<and>
       (pid, p) \<in> set (db_playlists w)"
  from h find_Some_id [of pid "playlists w" p] have "pl_id p = pid" "p \<in> set (playlists w)"
    by blast+
  with replace_by_itself_distinct [of "playlists w" p] d
  have "map (\<lambda>pl. if pl_id pl = pid then p else pl) (playlists w) = playlists w" by simp
  moreover from d have "store_put pid p (db_playlists w) = db_playlists w"
    by (simp add: store_put_same)
  ultimately show "fst (handleRemoveFromPlaylist fault pid fid w) = w"
    using h remove_absent_state [of pid w p fid fault] by auto
qed

theorem removeMember_absent_noop_and_idempotent_witness:
  "run init (session @ [AddClick None ''pl-1700000000000'']) = member_world \<and>
   find (\<lambda>x. pl_id x = ''pl-1700000000000'') (playlists member_world) = Some practice_sonata \<and>
   ''file-9'' \<notin> set (itemIds practice_sonata) \<and>
   distinct (map pl_id (playlists member_world)) \<and> key_ordered (db_playlists member_world) \<and>
   (''pl-1700000000000'', practice_sonata) \<in> set (db_playlists member_world) \<and>
   fst (handleRemoveFromPlaylist None ''pl-1700000000000'' ''file-9'' member_world) = member_world \<and>
   find (\<lambda>x. pl_id x = ''pl-0'') (playlists member_world) = None \<and>
   handleRemoveFromPlaylist None ''pl-0'' ''file-9'' member_world = (member_world, Silent)"
proof -
  have a: "find (\<lambda>x. pl_id x = ''pl-1700000000000'') (playlists member_world) =
     Some practice_sonata"
    by (simp add: member_world_def practice_sonata_def)
  have b: "''file-9'' \<notin> set (itemIds practice_sonata)"
    by (simp add: practice_sonata_def)
  have c: "distinct (map pl_id (playlists member_world))"
    "key_ordered (db_playlists member_world)"
    "(''pl-1700000000000'', practice_sonata) \<in> set (db_playlists member_world)"
    by (simp_all add: member_world_def key_ordered_def)
  have d: "find (\<lambda>x. pl_id x = ''pl-0'') (playlists member_world) = None"
    by (simp add: member_world_def practice_sonata_def)
  from removeMember_absent_noop_and_idempotent
      [of "''pl-1700000000000''" member_world None "''file-9''" practice_sonata] a b c
  have e: "fst (handleRemoveFromPlaylist None ''pl-1700000000000'' ''file-9'' member_world) =
    member_world"
    by blast
  from removeMember_absent_noop_and_idempotent
      [of "''pl-0''" member_world None "''file-9''" practice_sonata] d
  have f: "handleRemoveFromPlaylist None ''pl-0'' ''file-9'' member_world = (member_world, Silent)"
    by blast
  from member_world_reached a b c d e f show ?thesis by blast
qed

text \<open>
  The claim as first stated fails: after two playlists have been created at one clock
  reading, removing an id that neither lists renames the second cached playlist to the
  first and replaces the stored record.
\<close>

theorem absent_removal_overwrites_namesake:
  "map pl_name (playlists (run init
     [CreateClick 1700000000000 None ''Scales'', CreateClick 1700000000000 None ''Etudes''])) =
     [''Scales'', ''Etudes''] \<and>
   map itemIds (playlists (run init
     [CreateClick 1700000000000 None ''Scales'', CreateClick 1700000000000 None ''Etudes''])) =
     [[], []] \<and>
   map pl_name (store_getAll (db_playlists (run init
     [CreateClick 1700000000000 None ''Scales'', CreateClick 1700000000000 None ''Etudes'']))) =
     [''Etudes''] \<and>
   map pl_name (playlists (run init
     [CreateClick 1700000000000 None ''Scales'', CreateClick 1700000000000 None ''Etudes'',
      RemoveClick None ''pl-1700000000000'' ''file-9''])) =
     [''Scales'', ''Scales''] \<and>
   map pl_name (store_getAll (db_playlists (run init
     [CreateClick 1700000000000 None ''Scales'', CreateClick 1700000000000 None ''Etudes'',
      RemoveClick None ''pl-1700000000000'' ''file-9'']))) =
     [''Scales'']"
  by (simp add: init_def mount_def PlaylistView_handleCreatePlaylist_def trim_def is_space_def
      handleCreatePlaylist_def newPlaylist_def number_eval savePlaylist_def Let_def
      handleRemoveFromPlaylist_def store_getAll_def)

subsection \<open>C8: a created playlist survives a reload\<close>

text \<open>
  C8. Opening the application again sets the cached playlists and items to exactly the
  records of the two stores, whatever the cache held before. After \<^verbatim>\<open>Practice\<close> has
  been created and the application is opened again over the same store, the loaded
  playlists contain the new one, with that name and no members, and its hydrated form has
  no items; this is so even when the cache is emptied before the reload. The create button
  passes this name on unchanged.
\<close>

theorem create_then_reload_roundtrip:
  "newPlaylist now ''Practice'' \<in>
     set (playlists (fst (reload None None (fst (handleCreatePlaylist now None ''Practice'' w))))) \<and>
   pl_name (newPlaylist now ''Practice'') = ''Practice'' \<and>
   itemIds (newPlaylist now ''Practice'') = [] \<and>
   \<lparr>hp_id = pl_id (newPlaylist now ''Practice''), hp_name = ''Practice'', hp_items = []\<rparr> \<in>
     set (hydratedPlaylists
            (playlists (fst (reload None None (fst (handleCreatePlaylist now None ''Practice'' w)))))
            (allMusic (fst (reload None None (fst (handleCreatePlaylist now None ''Practice'' w)))))) \<and>
   snd (PlaylistView_handleCreatePlaylist now None ''Practice'' w) =
     handleCreatePlaylist now None ''Practice'' w \<and>
   playlists (fst (reload None None w)) = map snd (db_playlists w) \<and>
   allMusic (fst (reload None None w)) = map snd (db_sheetMusic w) \<and>
   newPlaylist now ''Practice'' \<in>
     set (playlists (fst (reload None None
            ((fst (handleCreatePlaylist now None ''Practice'' w))\<lparr>playlists := [], allMusic := []\<rparr>))))"
proof -
  let ?w2 = "fst (reload None None (fst (handleCreatePlaylist now None ''Practice'' w)))"
  let ?np = "newPlaylist now ''Practice''"
  have pls: "playlists ?w2 = map snd (store_put (pl_id ?np) ?np (db_playlists w))"
    by (simp add: reload_def loadData_def mount_def getAllSheetMusic_def getAllPlaylists_def
        store_getAll_def handleCreatePlaylist_def savePlaylist_def Let_def)
  have "(pl_id ?np, ?np) \<in> set (store_put (pl_id ?np) ?np (db_playlists w))"
    by (rule store_put_mem)
  then have "snd (pl_id ?np, ?np) \<in> snd ` set (store_put (pl_id ?np) ?np (db_playlists w))"
    by (rule imageI)
  with pls have mem: "?np \<in> set (playlists ?w2)" by simp
  have "\<lparr>hp_id = pl_id ?np, hp_name = pl_name ?np,
         hp_items = map the (filter (\<lambda>item. item \<noteq> None) (map (musicMap (allMusic ?w2)) (itemIds ?np)))\<rparr>
        \<in> set (hydratedPlaylists (playlists ?w2) (allMusic ?w2))"
    using mem by (auto simp: hydratedPlaylists_def Let_def)
  then have hyd: "\<lparr>hp_id = pl_id ?np, hp_name = ''Practice'', hp_items = []\<rparr>
        \<in> set (hydratedPlaylists (playlists ?w2) (allMusic ?w2))"
    by (simp add: newPlaylist_def)
  have "trim ''Practice'' = ''Practice''"
    by (simp add: trim_def is_space_def)
  then have "snd (PlaylistView_handleCreatePlaylist now None ''Practice'' w) =
     handleCreatePlaylist now None ''Practice'' w"
    by (simp add: PlaylistView_handleCreatePlaylist_def)
  moreover have "playlists (fst (reload None None w)) = map snd (db_playlists w)"
    "allMusic (fst (reload None None w)) = map snd (db_sheetMusic w)"
    by (simp_all add: reload_reads_store)
  moreover have "?np \<in>
     set (playlists (fst (reload None None
            ((fst (handleCreatePlaylist now None ''Practice'' w))\<lparr>playlists := [], allMusic := []\<rparr>))))"
    using store_put_mem [of "pl_id ?np" ?np "db_playlists w"]
    by (simp add: reload_reads_store handleCreatePlaylist_def savePlaylist_def Let_def)
      (metis imageI snd_conv)
  moreover have "pl_name ?np = ''Practice''" "itemIds ?np = []"
    by (simp_all add: newPlaylist_def)
  ultimately show ?thesis
    using mem hyd by (intro conjI)
qed

theorem create_then_reload_roundtrip_witness:
  "practice \<in>
     set (playlists (fst (reload None None
            (fst (handleCreatePlaylist 1700000000000 None ''Practice'' init))))) \<and>
   pl_name practice = ''Practice'' \<and> itemIds practice = []"
  using create_then_reload_roundtrip [of 1700000000000 init]
  by (simp add: newPlaylist_eval)

subsection \<open>C9: deleting a playlist leaves everything else alone\<close>

text \<open>
  C9. Deleting a playlist leaves the library, its store and the open item as they were, and
  every cached or stored playlist with another id in place and unchanged. Once confirmed
  and committed, no playlist with the deleted id remains in the cache or the store;
  unconfirmed or failed, the state is unchanged.
\<close>

theorem delete_playlist_touches_only_that_playlist:
  "allMusic (fst (handleDeletePlaylist confirmed fault pid w)) = allMusic w \<and>
   db_sheetMusic (fst (handleDeletePlaylist confirmed fault pid w)) = db_sheetMusic w \<and>
   currentFile (fst (handleDeletePlaylist confirmed fault pid w)) = currentFile w \<and>
   filter (\<lambda>pl. pl_id pl \<noteq> pid) (playlists (fst (handleDeletePlaylist confirmed fault pid w))) =
     filter (\<lambda>pl. pl_id pl \<noteq> pid) (playlists w) \<and>
   filter (\<lambda>kv. fst kv \<noteq> pid) (db_playlists (fst (handleDeletePlaylist confirmed fault pid w))) =
     filter (\<lambda>kv. fst kv \<noteq> pid) (db_playlists w) \<and>
   (confirmed \<and> fault = None \<longrightarrow>
      playlists (fst (handleDeletePlaylist confirmed fault pid w)) =
        filter (\<lambda>pl. pl_id pl \<noteq> pid) (playlists w) \<and>
      db_playlists (fst (handleDeletePlaylist confirmed fault pid w)) =
        filter (\<lambda>kv. fst kv \<noteq> pid) (db_playlists w) \<and>
      pid \<notin> pl_id ` set (playlists (fst (handleDeletePlaylist confirmed fault pid w))) \<and>
      pid \<notin> fst ` set (db_playlists (fst (handleDeletePlaylist confirmed fault pid w)))) \<and>
   (\<not> confirmed \<or> fault \<noteq> None \<longrightarrow> fst (handleDeletePlaylist confirmed fault pid w) = w)"
  by (cases fault; cases confirmed)
    (auto simp: handleDeletePlaylist_def deletePlaylist_def store_delete_def)

theorem delete_playlist_touches_only_that_playlist_witness:
  "itemIds (snd (hd (db_playlists member_world))) = [sm_id sonata] \<and>
   allMusic (fst (handleDeletePlaylist True None ''pl-1700000000000'' member_world)) = [sonata] \<and>
   db_sheetMusic (fst (handleDeletePlaylist True None ''pl-1700000000000'' member_world)) =
     [(''file-1700000000001-0.5'', sonata)] \<and>
   playlists (fst (handleDeletePlaylist True None ''pl-1700000000000'' member_world)) = [] \<and>
   db_playlists (fst (handleDeletePlaylist True None ''pl-1700000000000'' member_world)) = []"
  using delete_playlist_touches_only_that_playlist [of True None "''pl-1700000000000''" member_world]
  by (simp add: member_world_def practice_sonata_def sonata_def)

subsection \<open>C10: adding with no item open\<close>

text \<open>
  C10. \<^verbatim>\<open>handleAddToPlaylist\<close> takes the playlist id only; the item is the open one.
  With no item open the call changes nothing, stores nothing and shows nothing.
\<close>

theorem add_without_selection_is_noop:
  "currentFile w = None \<Longrightarrow> handleAddToPlaylist fault pid w = (w, Silent)"
  by (simp add: handleAddToPlaylist_def)

theorem add_without_selection_is_noop_witness:
  "currentFile (handleCloseViewer session_world) = None \<and>
   handleAddToPlaylist None ''pl-1700000000000'' (handleCloseViewer session_world) =
     (handleCloseViewer session_world, Silent)"
proof -
  have h: "currentFile (handleCloseViewer session_world) = None"
    by (simp add: handleCloseViewer_def)
  from add_without_selection_is_noop [OF h] h show ?thesis by simp
qed

end
